theory Spec2Isabelle
  imports
    Complex_Main
    "HOL-Library.Char_ord"
    "HOL-Library.List_Lexorder"
    "HOL-Library.Option_ord"
    "HOL-Library.Product_Lexorder"
begin

section \<open>The task manager of TaskManagementSystem.py\<close>

text \<open>
  The program keeps its data in an SQLite database with three tables and reaches it through
  one connection, so the state of the model is what that connection sees: the rows of each
  table in rowid order, and the counter that \<^verbatim>\<open>AUTOINCREMENT\<close> keeps for each table.

  Conventions of the embedding.
  \<^item> A \<^verbatim>\<open>TEXT\<close> column is a \<open>string\<close>, compared bytewise as SQLite does
    (the lexicographic order on character lists); a nullable column is an \<open>option\<close>, and
    \<open>None\<close>, SQL's \<^verbatim>\<open>NULL\<close>, is below every value in an \<^verbatim>\<open>ORDER BY\<close>.
  \<^item> Arguments have the types of the annotations of \<^verbatim>\<open>add_task\<close>
    (\<^verbatim>\<open>title: str\<close>, \<^verbatim>\<open>priority: int\<close>, \<^verbatim>\<open>deadline: Optional[str]\<close>,
    \<^verbatim>\<open>estimated_hours: float\<close>). A Python integer is unbounded and an
    \<^verbatim>\<open>INTEGER\<close> of SQLite has 64 bits: \<^verbatim>\<open>execute\<close> raises \<^verbatim>\<open>OverflowError\<close> on
    an integer argument outside that range, before the statement runs.
  \<^item> An operation that can raise returns the exception, if any, together with the database
    as the connection sees it afterwards.
  \<^item> A Python \<^verbatim>\<open>float\<close> is a \<open>real\<close>: the code subtracts, divides, averages and
    compares them, and the model does the same without rounding error; \<^verbatim>\<open>round(x, 2)\<close>
    is the rounding of the real number.
  \<^item> The clock is an argument: each operation that reads the time receives the text it reads
    (\<^verbatim>\<open>CURRENT_TIMESTAMP\<close> in SQLite, \<^verbatim>\<open>datetime.now().isoformat()\<close> in Python).
  \<^item> \<^verbatim>\<open>datetime.fromisoformat\<close> is a library function and an argument \<open>fromisoformat\<close>
    of the model: \<open>None\<close> where it raises \<^verbatim>\<open>ValueError\<close>, otherwise the datetime it
    returns, naive or with an offset.
\<close>

subsection \<open>Tables\<close>

text \<open>
  The columns of \<^verbatim>\<open>tasks\<close>, \<^verbatim>\<open>task_history\<close> and \<^verbatim>\<open>tags\<close>, in the order of the
  \<^verbatim>\<open>CREATE TABLE\<close> statements. Columns of \<^verbatim>\<open>task_history\<close> and \<^verbatim>\<open>tags\<close> whose name
  also occurs in \<^verbatim>\<open>tasks\<close> carry the prefix \<open>h_\<close> or \<open>g_\<close>; the key \<^verbatim>\<open>id\<close> of
  \<^verbatim>\<open>tasks\<close> is \<open>t_id\<close>.
\<close>

record task =
  t_id :: int
  title :: string
  description :: string
  category :: string
  priority :: int
  status :: string
  deadline :: "string option"
  created_at :: string
  completed_at :: "string option"
  estimated_hours :: real
  actual_hours :: "real option"

record history_row =
  h_id :: int
  h_task_id :: int
  h_category :: string
  h_estimated_hours :: real
  h_actual_hours :: "real option"
  days_to_deadline :: "int option"
  completion_time_hours :: real

record tag_row =
  g_id :: int
  g_task_id :: int
  tag :: string

record database =
  tasks :: "task list"
  task_history :: "history_row list"
  tags :: "tag_row list"
  seq_tasks :: int
  seq_task_history :: int
  seq_tags :: int

text \<open>The database after \<^verbatim>\<open>init_db\<close> on a new file.\<close>

definition init_db :: database where
  "init_db = \<lparr>tasks = [], task_history = [], tags = [],
              seq_tasks = 0, seq_task_history = 0, seq_tags = 0\<rparr>"

text \<open>
  The rowid of an \<^verbatim>\<open>INTEGER PRIMARY KEY AUTOINCREMENT\<close> column: one more than the
  largest rowid the table ever held, which SQLite takes from its counter and from the rows
  present.
\<close>

definition next_rowid :: "int \<Rightarrow> int list \<Rightarrow> int" where
  "next_rowid seq ids = fold max ids seq + 1"

subsection \<open>Python helpers\<close>

text \<open>\<^verbatim>\<open>str.isspace\<close> on the ASCII range and \<^verbatim>\<open>str.strip()\<close>.\<close>

definition isspace :: "char \<Rightarrow> bool" where
  "isspace c = (c \<in> set [CHR 0x09, CHR 0x0A, CHR 0x0B, CHR 0x0C, CHR 0x0D,
                          CHR 0x1C, CHR 0x1D, CHR 0x1E, CHR 0x1F, CHR 0x20])"

definition strip :: "string \<Rightarrow> string" where
  "strip s = rev (dropWhile isspace (rev (dropWhile isspace s)))"

text \<open>Truth values of Python: \<^verbatim>\<open>None\<close>, \<^verbatim>\<open>0\<close>, \<^verbatim>\<open>0.0\<close> and \<^verbatim>\<open>''\<close> are false.\<close>

definition truthy_str :: "string option \<Rightarrow> bool" where
  "truthy_str s = (case s of None \<Rightarrow> False | Some x \<Rightarrow> x \<noteq> [])"

definition truthy_int :: "int option \<Rightarrow> bool" where
  "truthy_int n = (case n of None \<Rightarrow> False | Some x \<Rightarrow> x \<noteq> 0)"

definition truthy_float :: "real \<Rightarrow> bool" where
  "truthy_float x = (x \<noteq> 0)"

text \<open>
  \<^verbatim>\<open>round(x, 2)\<close>: the multiple of 1/100 nearest to \<open>x\<close>, a tie going to the even
  multiple.
\<close>

definition round2 :: "real \<Rightarrow> real" where
  "round2 x =
     (let y = x * 100; f = \<lfloor>y\<rfloor>; d = y - of_int f
      in of_int (if d < 1 / 2 then f
                 else if 1 / 2 < d then f + 1
                 else if even f then f else f + 1) / 100)"

datatype error = ValueError | TypeError | OverflowError

text \<open>The integers that the driver can hand to SQLite.\<close>

definition sqlite_int :: "int \<Rightarrow> bool" where
  "sqlite_int n = (- 9223372036854775808 \<le> n \<and> n \<le> 9223372036854775807)"

text \<open>
  A \<^verbatim>\<open>datetime\<close> is naive, its microseconds counted on the wall clock, or aware, its
  microseconds counted in UTC. The difference of two datetimes of one kind is a
  \<^verbatim>\<open>timedelta\<close>, here its microseconds; the difference of a naive and an aware one raises
  \<^verbatim>\<open>TypeError\<close>.
\<close>

datatype datetime = Naive int | Aware int

fun datetime_sub :: "datetime \<Rightarrow> datetime \<Rightarrow> error + int" where
  "datetime_sub (Naive a) (Naive b) = Inr (a - b)"
| "datetime_sub (Aware a) (Aware b) = Inr (a - b)"
| "datetime_sub (Naive a) (Aware b) = Inl TypeError"
| "datetime_sub (Aware a) (Naive b) = Inl TypeError"

subsection \<open>TaskManager\<close>

text \<open>
  \<^verbatim>\<open>add_task\<close>: one \<^verbatim>\<open>INSERT\<close> into \<^verbatim>\<open>tasks\<close>, where \<^verbatim>\<open>status\<close> and
  \<^verbatim>\<open>created_at\<close> take their column defaults, then one \<^verbatim>\<open>INSERT\<close> into \<^verbatim>\<open>tags\<close> for
  each tag. \<open>now\<close> is the \<^verbatim>\<open>CURRENT_TIMESTAMP\<close> of the insertion. The priority is the
  one integer among the arguments of the \<^verbatim>\<open>INSERT\<close>; the id of the new row, which the
  tags are inserted under, is a rowid of SQLite.
\<close>

definition insert_tag :: "int \<Rightarrow> string \<Rightarrow> database \<Rightarrow> database" where
  "insert_tag task_id tg db =
     (let new_id = next_rowid (seq_tags db) (map g_id (tags db))
      in db\<lparr>tags := tags db @ [\<lparr>g_id = new_id, g_task_id = task_id, tag = tg\<rparr>],
            seq_tags := new_id\<rparr>)"

fun insert_tags :: "int \<Rightarrow> string list \<Rightarrow> database \<Rightarrow> database" where
  "insert_tags task_id [] db = db"
| "insert_tags task_id (tg # tgs) db = insert_tags task_id tgs (insert_tag task_id (strip tg) db)"

definition add_task ::
  "database \<Rightarrow> string \<Rightarrow> string \<Rightarrow> string \<Rightarrow> string \<Rightarrow> int \<Rightarrow> string option \<Rightarrow> real
     \<Rightarrow> string list option \<Rightarrow> (error + int) \<times> database" where
  "add_task db now title' description' category' priority' deadline' estimated_hours' tags' =
     (if \<not> sqlite_int priority' then (Inl OverflowError, db)
      else
        (let task_id = next_rowid (seq_tasks db) (map t_id (tasks db));
             row = \<lparr>t_id = task_id, title = title', description = description',
                    category = category', priority = priority', status = ''pending'',
                    deadline = deadline', created_at = now, completed_at = None,
                    estimated_hours = estimated_hours', actual_hours = None\<rparr>;
             db1 = db\<lparr>tasks := tasks db @ [row], seq_tasks := task_id\<rparr>;
             db2 = (case tags' of
                      None \<Rightarrow> db1
                    | Some tgs \<Rightarrow> if tgs = [] then db1 else insert_tags task_id tgs db1)
         in (Inr task_id, db2)))"

text \<open>
  \<^verbatim>\<open>get_tasks\<close>: the rows that pass the filters, ordered by
  \<^verbatim>\<open>priority ASC, deadline ASC\<close>, each with the tags of its id. A filter that is
  \<^verbatim>\<open>None\<close> or empty is not applied. SQL leaves the order of rows with equal keys open;
  the model keeps them in rowid order. The dictionary built for a row is the pair of the
  row and the value of its key \<^verbatim>\<open>tags\<close>.
\<close>

type_synonym task_dict = "task \<times> string list"

definition select_tags :: "database \<Rightarrow> int \<Rightarrow> string list" where
  "select_tags db task_id = map tag (filter (\<lambda>g. g_task_id g = task_id) (tags db))"

definition matches :: "string option \<Rightarrow> string option \<Rightarrow> task \<Rightarrow> bool" where
  "matches status' category' t =
     ((truthy_str status' \<longrightarrow> Some (status t) = status')
      \<and> (truthy_str category' \<longrightarrow> Some (category t) = category'))"

definition order_key :: "task \<Rightarrow> int \<times> string option" where
  "order_key t = (priority t, deadline t)"

definition get_tasks :: "database \<Rightarrow> string option \<Rightarrow> string option \<Rightarrow> task_dict list" where
  "get_tasks db status' category' =
     map (\<lambda>t. (t, select_tags db (t_id t)))
       (sort_key order_key (filter (matches status' category') (tasks db)))"

text \<open>
  \<^verbatim>\<open>update_task\<close>: a keyword argument is a field name with a value of the column's type;
  \<open>Other\<close> is a keyword that names no updatable column. Only the names in
  \<open>allowed_fields\<close> reach the \<^verbatim>\<open>UPDATE\<close>, which is not run when none does.
\<close>

datatype kwarg =
    Title string
  | Description string
  | Category string
  | Priority int
  | Status string
  | Deadline "string option"
  | Estimated_hours real
  | Actual_hours "real option"
  | Other string

definition allowed_fields :: "string list" where
  "allowed_fields = [''title'', ''description'', ''category'', ''priority'',
                     ''status'', ''deadline'', ''estimated_hours'', ''actual_hours'']"

fun field_name :: "kwarg \<Rightarrow> string" where
  "field_name (Title v) = ''title''"
| "field_name (Description v) = ''description''"
| "field_name (Category v) = ''category''"
| "field_name (Priority v) = ''priority''"
| "field_name (Status v) = ''status''"
| "field_name (Deadline v) = ''deadline''"
| "field_name (Estimated_hours v) = ''estimated_hours''"
| "field_name (Actual_hours v) = ''actual_hours''"
| "field_name (Other name) = name"

fun set_column :: "kwarg \<Rightarrow> task \<Rightarrow> task" where
  "set_column (Title v) t = t\<lparr>title := v\<rparr>"
| "set_column (Description v) t = t\<lparr>description := v\<rparr>"
| "set_column (Category v) t = t\<lparr>category := v\<rparr>"
| "set_column (Priority v) t = t\<lparr>priority := v\<rparr>"
| "set_column (Status v) t = t\<lparr>status := v\<rparr>"
| "set_column (Deadline v) t = t\<lparr>deadline := v\<rparr>"
| "set_column (Estimated_hours v) t = t\<lparr>estimated_hours := v\<rparr>"
| "set_column (Actual_hours v) t = t\<lparr>actual_hours := v\<rparr>"
| "set_column (Other name) t = t"

definition update_where :: "int \<Rightarrow> (task \<Rightarrow> task) \<Rightarrow> database \<Rightarrow> database" where
  "update_where task_id f db =
     db\<lparr>tasks := map (\<lambda>t. if t_id t = task_id then f t else t) (tasks db)\<rparr>"

text \<open>
  The arguments of the \<^verbatim>\<open>UPDATE\<close> are the values of the keywords that passed and the
  id; of the values only a priority is an integer.
\<close>

fun kwarg_fits :: "kwarg \<Rightarrow> bool" where
  "kwarg_fits (Priority v) = sqlite_int v"
| "kwarg_fits k = True"

definition update_task :: "database \<Rightarrow> int \<Rightarrow> kwarg list \<Rightarrow> error option \<times> database" where
  "update_task db task_id kwargs =
     (let updates = filter (\<lambda>k. field_name k \<in> set allowed_fields) kwargs
      in if updates \<noteq> [] then
           (if list_all kwarg_fits updates \<and> sqlite_int task_id
            then (None, update_where task_id (\<lambda>t. fold set_column updates t) db)
            else (Some OverflowError, db))
         else (None, db))"

text \<open>
  \<^verbatim>\<open>complete_task\<close>. The row is read first, by a \<^verbatim>\<open>SELECT\<close> whose argument is the
  id; when there is no row, nothing happens. Otherwise the \<^verbatim>\<open>UPDATE\<close> runs, and only
  then are the timestamps parsed and subtracted: a \<^verbatim>\<open>ValueError\<close> of
  \<^verbatim>\<open>fromisoformat\<close> or a \<^verbatim>\<open>TypeError\<close> of a subtraction leaves the connection with
  the update made and no history row. \<open>now\<close> is \<^verbatim>\<open>datetime.now().isoformat()\<close>. A
  \<^verbatim>\<open>timedelta\<close> keeps its seconds and microseconds non-negative, so its \<^verbatim>\<open>days\<close> is
  the difference divided by one day and rounded down; \<^verbatim>\<open>total_seconds() / 3600\<close> is the
  difference in hours. The datetimes of Python lie between the years 1 and 9999, so the
  number of days is an integer that SQLite can store.
\<close>

definition fetchone_task :: "database \<Rightarrow> int \<Rightarrow> task option" where
  "fetchone_task db task_id = find (\<lambda>t. t_id t = task_id) (tasks db)"

definition timedelta_days :: "int \<Rightarrow> int" where
  "timedelta_days us = us div 86400000000"

definition total_seconds :: "int \<Rightarrow> real" where
  "total_seconds us = of_int us / 1000000"

definition deadline_days_of ::
  "(string \<Rightarrow> datetime option) \<Rightarrow> string option \<Rightarrow> datetime \<Rightarrow> error + int option" where
  "deadline_days_of fromisoformat dl created =
     (if truthy_str dl then
        (case dl of
           None \<Rightarrow> Inr None
         | Some d \<Rightarrow>
             (case fromisoformat d of
                None \<Rightarrow> Inl ValueError
              | Some deadline' \<Rightarrow>
                  (case datetime_sub deadline' created of
                     Inl e \<Rightarrow> Inl e
                   | Inr delta \<Rightarrow> Inr (Some (timedelta_days delta)))))
      else Inr None)"

definition insert_history :: "history_row \<Rightarrow> database \<Rightarrow> database" where
  "insert_history r db =
     (let new_id = next_rowid (seq_task_history db) (map h_id (task_history db))
      in db\<lparr>task_history := task_history db @ [r\<lparr>h_id := new_id\<rparr>],
            seq_task_history := new_id\<rparr>)"

text \<open>
  What follows the \<^verbatim>\<open>UPDATE\<close>, on the row \<open>task\<close> read before it and the store
  \<open>db1\<close> after it.
\<close>

definition log_history ::
  "(string \<Rightarrow> datetime option) \<Rightarrow> database \<Rightarrow> string \<Rightarrow> int \<Rightarrow> real option \<Rightarrow> task
     \<Rightarrow> error option \<times> database" where
  "log_history fromisoformat db1 completed_at' task_id actual_hours' task =
     (case fromisoformat (created_at task) of
        None \<Rightarrow> (Some ValueError, db1)
      | Some created \<Rightarrow>
          (case fromisoformat completed_at' of
             None \<Rightarrow> (Some ValueError, db1)
           | Some completed \<Rightarrow>
               (case datetime_sub completed created of
                  Inl e \<Rightarrow> (Some e, db1)
                | Inr delta \<Rightarrow>
                    (let completion_time = total_seconds delta / 3600
                     in case deadline_days_of fromisoformat (deadline task) created of
                          Inl e \<Rightarrow> (Some e, db1)
                        | Inr days \<Rightarrow>
                            (None,
                             insert_history
                               \<lparr>h_id = 0, h_task_id = task_id, h_category = category task,
                                h_estimated_hours = estimated_hours task,
                                h_actual_hours = actual_hours',
                                days_to_deadline = days,
                                completion_time_hours = completion_time\<rparr> db1)))))"

definition complete_task ::
  "(string \<Rightarrow> datetime option) \<Rightarrow> database \<Rightarrow> string \<Rightarrow> int \<Rightarrow> real option
     \<Rightarrow> error option \<times> database" where
  "complete_task fromisoformat db now task_id actual_hours' =
     (if \<not> sqlite_int task_id then (Some OverflowError, db)
      else
        (case fetchone_task db task_id of
           None \<Rightarrow> (None, db)
         | Some task \<Rightarrow>
             (let completed_at' = now;
                  db1 = update_where task_id
                          (\<lambda>t. t\<lparr>status := ''completed'', completed_at := Some completed_at',
                                  actual_hours := actual_hours'\<rparr>) db
              in log_history fromisoformat db1 completed_at' task_id actual_hours' task)))"

text \<open>
  \<^verbatim>\<open>delete_task\<close>: the tags of the id, then the row of the id. The model is the store
  after the call; an id outside the range of SQLite makes the first \<^verbatim>\<open>DELETE\<close> raise
  \<^verbatim>\<open>OverflowError\<close> with nothing deleted, and no row of SQLite has such an id.
\<close>

definition delete_task :: "database \<Rightarrow> int \<Rightarrow> database" where
  "delete_task db task_id =
     db\<lparr>tags := filter (\<lambda>g. g_task_id g \<noteq> task_id) (tags db),
        tasks := filter (\<lambda>t. t_id t \<noteq> task_id) (tasks db)\<rparr>"

text \<open>
  \<^verbatim>\<open>get_statistics\<close>. A \<^verbatim>\<open>GROUP BY\<close> gives one pair for each value present;
  \<^verbatim>\<open>AVG\<close> of no row is \<^verbatim>\<open>NULL\<close>; every history row has a completion time, the only
  \<^verbatim>\<open>INSERT\<close> supplying one. \<open>now\<close> is \<^verbatim>\<open>datetime.now().isoformat()\<close>, and a row whose
  deadline is \<^verbatim>\<open>NULL\<close> does not pass \<^verbatim>\<open>deadline < ?\<close>.
\<close>

record statistics =
  by_status :: "(string \<times> nat) list"
  by_category :: "(string \<times> nat) list"
  avg_completion_hours :: real
  overdue :: nat

definition group_count :: "(task \<Rightarrow> string) \<Rightarrow> task list \<Rightarrow> (string \<times> nat) list" where
  "group_count col rows =
     map (\<lambda>v. (v, length (filter (\<lambda>t. col t = v) rows))) (sort (remdups (map col rows)))"

definition sql_avg :: "real list \<Rightarrow> real option" where
  "sql_avg xs = (if xs = [] then None else Some (sum_list xs / of_nat (length xs)))"

definition is_overdue :: "string \<Rightarrow> task \<Rightarrow> bool" where
  "is_overdue today t =
     ((case deadline t of None \<Rightarrow> False | Some d \<Rightarrow> d < today) \<and> status t \<noteq> ''completed'')"

definition get_statistics :: "database \<Rightarrow> string \<Rightarrow> statistics" where
  "get_statistics db now =
     (let avg_completion = sql_avg (map completion_time_hours (task_history db));
          today = now
      in \<lparr>by_status = group_count status (tasks db),
          by_category = group_count category (tasks db),
          avg_completion_hours =
            (case avg_completion of
               None \<Rightarrow> 0
             | Some a \<Rightarrow> if truthy_float a then round2 a else 0),
          overdue = length (filter (is_overdue today) (tasks db))\<rparr>)"

text \<open>
  \<^verbatim>\<open>export_tasks\<close> with format \<^verbatim>\<open>json\<close> writes the list of \<^verbatim>\<open>get_tasks()\<close>, and
  \<^verbatim>\<open>import_tasks\<close> reads such a list back; the model passes the list itself, the JSON text
  of a string, an integer, a float and \<^verbatim>\<open>null\<close> being read back as the value written.
  Of each dictionary \<^verbatim>\<open>import_tasks\<close> hands seven entries to \<^verbatim>\<open>add_task\<close>, and an
  exception of \<^verbatim>\<open>add_task\<close> ends the loop. \<open>clock k\<close> is the
  \<^verbatim>\<open>CURRENT_TIMESTAMP\<close> of the insertion number \<open>k\<close>.
\<close>

definition export_tasks :: "database \<Rightarrow> task_dict list" where
  "export_tasks db = get_tasks db None None"

fun import_tasks ::
  "database \<Rightarrow> (nat \<Rightarrow> string) \<Rightarrow> task_dict list \<Rightarrow> error option \<times> database" where
  "import_tasks db clock [] = (None, db)"
| "import_tasks db clock ((task, tags') # rest) =
     (case add_task db (clock 0) (title task) (description task) (category task)
             (priority task) (deadline task) (estimated_hours task) (Some tags') of
        (Inl e, db') \<Rightarrow> (Some e, db')
      | (Inr task_id, db') \<Rightarrow> import_tasks db' (\<lambda>k. clock (Suc k)) rest)"

subsection \<open>PriorityPredictor\<close>

text \<open>
  \<^verbatim>\<open>deadline_days and deadline_days <= k\<close> is \<open>days_within\<close>: false for \<^verbatim>\<open>None\<close> and
  for \<^verbatim>\<open>0\<close>.
\<close>

definition days_within :: "int option \<Rightarrow> int \<Rightarrow> bool" where
  "days_within deadline_days k =
     (truthy_int deadline_days \<and> (case deadline_days of None \<Rightarrow> False | Some n \<Rightarrow> n \<le> k))"

definition heuristic_priority :: "real \<Rightarrow> int option \<Rightarrow> int" where
  "heuristic_priority estimated_hours' deadline_days =
     (if days_within deadline_days 3 then 1
      else if days_within deadline_days 7 then 2
      else if estimated_hours' > 15 then 2
      else if estimated_hours' > 5 then 3
      else 4)"

definition select_history :: "database \<Rightarrow> string \<Rightarrow> (real \<times> int option \<times> real) list" where
  "select_history db category' =
     map (\<lambda>h. (h_estimated_hours h, days_to_deadline h, completion_time_hours h))
       (filter (\<lambda>h. h_category h = category') (task_history db))"

fun score_row :: "real \<Rightarrow> int option \<Rightarrow> real \<times> int option \<times> real \<Rightarrow> int \<times> real \<Rightarrow> int \<times> real" where
  "score_row estimated_hours' deadline_days (hist_est, hist_deadline, hist_completion)
       (urgency_score, complexity_score) =
     (case (hist_deadline, deadline_days) of
        (Some hd', Some dd) \<Rightarrow>
          if hd' \<noteq> 0 \<and> dd \<noteq> 0 then urgency_score + \<bar>hd' - dd\<bar> else urgency_score
      | _ \<Rightarrow> urgency_score,
      if truthy_float hist_est \<and> truthy_float estimated_hours'
      then complexity_score + \<bar>hist_est - estimated_hours'\<bar> else complexity_score)"

definition suggest_priority :: "database \<Rightarrow> string \<Rightarrow> real \<Rightarrow> int option \<Rightarrow> int" where
  "suggest_priority db category' estimated_hours' deadline_days =
     (let history = select_history db category'
      in if history = [] then heuristic_priority estimated_hours' deadline_days
         else
           (let (urgency_score, complexity_score) =
                  fold (score_row estimated_hours' deadline_days) history (0, 0);
                complexity_score = complexity_score / of_nat (length history);
                urgency_score = real_of_int urgency_score / of_nat (length history);
                priority' =
                  (if days_within deadline_days 7 then 1
                   else if days_within deadline_days 14 then 2
                   else if estimated_hours' > 20 then 2
                   else if estimated_hours' > 10 then 3
                   else 4)
            in max 1 (min 5 priority')))"

subsection \<open>Sequences of operations\<close>

text \<open>
  The four operations of \<^verbatim>\<open>TaskManager\<close> that write, as commands, and the stores they build
  from the new database. Each command runs at a clock reading \<open>now\<close> and leaves the store
  that the connection sees after it, whether it returned or raised.
\<close>

datatype command =
    Add_task string string string int "string option" real "string list option"
  | Update_task int "kwarg list"
  | Complete_task int "real option"
  | Delete_task int

fun perform ::
  "(string \<Rightarrow> datetime option) \<Rightarrow> string \<Rightarrow> command \<Rightarrow> database \<Rightarrow> database" where
  "perform fromisoformat now (Add_task ti de ca pr dl es tgs) db =
     snd (add_task db now ti de ca pr dl es tgs)"
| "perform fromisoformat now (Update_task task_id kwargs) db =
     snd (update_task db task_id kwargs)"
| "perform fromisoformat now (Complete_task task_id hours) db =
     snd (complete_task fromisoformat db now task_id hours)"
| "perform fromisoformat now (Delete_task task_id) db = delete_task db task_id"

inductive reachable :: "(string \<Rightarrow> datetime option) \<Rightarrow> database \<Rightarrow> bool"
  for fromisoformat :: "string \<Rightarrow> datetime option" where
  reachable_init: "reachable fromisoformat init_db"
| reachable_step:
    "reachable fromisoformat db \<Longrightarrow> reachable fromisoformat (perform fromisoformat now c db)"

subsection \<open>Example stores\<close>

text \<open>
  Two tasks of priority 3 added to the new database: the first with a deadline, the second
  with none.
\<close>

definition two_deadlines :: database where
  "two_deadlines =
     snd (add_task
            (snd (add_task init_db ''2024-05-01 09:00:00'' ''report'' [] ''work'' 3
                    (Some ''2024-06-01T00:00:00'') 2 (Some [''office''])))
            ''2024-05-01 09:05:00'' ''reading'' [] ''home'' 3 None 1 (Some [''books'']))"

text \<open>
  The values of \<^verbatim>\<open>datetime.fromisoformat\<close> on the timestamps of the examples, in
  microseconds from 2024-05-01 09:00:00 (in UTC for the one text with an offset); the
  examples parse no other text, and the text \<^verbatim>\<open>next friday\<close>, which is no timestamp, has
  no value.
\<close>

definition example_fromisoformat :: "string \<Rightarrow> datetime option" where
  "example_fromisoformat s =
     (if s = ''2024-05-01 09:00:00'' then Some (Naive 0)
      else if s = ''2024-05-01T09:03:45'' then Some (Naive 225000000)
      else if s = ''2024-05-02T10:00:00'' then Some (Naive 90000000000)
      else if s = ''2024-04-30T00:00:00'' then Some (Naive (- 118800000000))
      else if s = ''2024-06-01T00:00:00+00:00'' then Some (Aware 2646000000000)
      else None)"

text \<open>
  A task created at 09:00:00 with a deadline on the day before, and the store after the
  task is completed 225 seconds later with 2 hours of work.
\<close>

definition late_task :: database where
  "late_task =
     snd (add_task init_db ''2024-05-01 09:00:00'' ''report'' [] ''work'' 1
            (Some ''2024-04-30T00:00:00'') 4 None)"

definition quick_done :: database where
  "quick_done =
     snd (complete_task example_fromisoformat late_task ''2024-05-01T09:03:45'' 1 (Some 2))"

text \<open>
  A task whose deadline is no timestamp, and a task whose deadline has an offset; both are
  texts that \<^verbatim>\<open>add_task\<close> takes.
\<close>

definition vague_task :: database where
  "vague_task =
     snd (add_task init_db ''2024-05-01 09:00:00'' ''report'' [] ''work'' 1
            (Some ''next friday'') 4 None)"

definition offset_task :: database where
  "offset_task =
     snd (add_task init_db ''2024-05-01 09:00:00'' ''report'' [] ''work'' 1
            (Some ''2024-06-01T00:00:00+00:00'') 4 None)"

subsection \<open>An invariant of the stores\<close>

text \<open>
  What the operations maintain, from the new database on: no task row and no tag row refers
  to an id above the counter of \<^verbatim>\<open>tasks\<close>, every stored priority is an integer of
  SQLite, and every stored tag is stripped, as \<^verbatim>\<open>add_task\<close>, the only writer of tags,
  strips them.
\<close>

definition store_inv :: "database \<Rightarrow> bool" where
  "store_inv db =
     ((\<forall>t \<in> set (tasks db). t_id t \<le> seq_tasks db \<and> sqlite_int (priority t))
      \<and> (\<forall>g \<in> set (tags db). g_task_id g \<le> seq_tasks db \<and> strip (tag g) = tag g))"

text \<open>
  The row that \<^verbatim>\<open>import_tasks\<close> has \<^verbatim>\<open>add_task\<close> insert, under the id \<open>i\<close> at the time
  \<open>now\<close>, for an exported row \<open>t\<close>.
\<close>

definition imported_row :: "int \<Rightarrow> string \<Rightarrow> task \<Rightarrow> task" where
  "imported_row i now t =
     \<lparr>t_id = i, title = title t, description = description t, category = category t,
      priority = priority t, status = ''pending'', deadline = deadline t, created_at = now,
      completed_at = None, estimated_hours = estimated_hours t, actual_hours = None\<rparr>"

text \<open>The clock of the example import: one second between the two insertions.\<close>

definition example_clock :: "nat \<Rightarrow> string" where
  "example_clock k = (if k = 0 then ''2024-07-01 12:00:00'' else ''2024-07-01 12:00:01'')"

section \<open>Properties\<close>

subsection \<open>Row identifiers and tag insertion\<close>

lemma fold_max_ge: "(s::int) \<le> fold max ids s \<and> (\<forall>x\<in>set ids. x \<le> fold max ids s)"
proof (induction ids arbitrary: s)
  case Nil
  show ?case by simp
next
  case (Cons a ids)
  have "max a s \<le> fold max ids (max a s)"
    using Cons.IH by blast
  moreover have "\<forall>x\<in>set ids. x \<le> fold max ids (max a s)"
    using Cons.IH by blast
  ultimately show ?case by auto
qed

lemma next_rowid_gt_seq: "seq < next_rowid seq ids"
  using fold_max_ge [of seq ids] by (simp add: next_rowid_def)

lemma next_rowid_gt_ids: "x \<in> set ids \<Longrightarrow> x < next_rowid seq ids"
  using fold_max_ge [of seq ids] by (auto simp: next_rowid_def)

lemma insert_tag_frame [simp]:
  "tasks (insert_tag i tg db) = tasks db"
  "task_history (insert_tag i tg db) = task_history db"
  "seq_tasks (insert_tag i tg db) = seq_tasks db"
  "seq_task_history (insert_tag i tg db) = seq_task_history db"
  by (simp_all add: insert_tag_def Let_def)

lemma insert_tags_tasks [simp]: "tasks (insert_tags i tgs db) = tasks db"
  by (induction tgs arbitrary: db) simp_all

lemma insert_tags_history [simp]: "task_history (insert_tags i tgs db) = task_history db"
  by (induction tgs arbitrary: db) simp_all

lemma insert_tags_seq_tasks [simp]: "seq_tasks (insert_tags i tgs db) = seq_tasks db"
  by (induction tgs arbitrary: db) simp_all

lemma insert_tags_seq_history [simp]:
  "seq_task_history (insert_tags i tgs db) = seq_task_history db"
  by (induction tgs arbitrary: db) simp_all

lemma insert_tags_tag: "map tag (tags (insert_tags i tgs db)) = map tag (tags db) @ map strip tgs"
  by (induction tgs arbitrary: db) (simp_all add: insert_tag_def Let_def)

lemma select_tags_insert_tags:
  "select_tags (insert_tags i tgs db) j = select_tags db j @ (if i = j then map strip tgs else [])"
  by (induction tgs arbitrary: db) (simp_all add: insert_tag_def Let_def select_tags_def)

lemma add_task_overflow:
  "\<not> sqlite_int pr \<Longrightarrow> add_task db now ti de ca pr dl es tgs = (Inl OverflowError, db)"
  by (simp add: add_task_def)

lemma add_task_returns:
  "sqlite_int pr \<Longrightarrow>
   fst (add_task db now ti de ca pr dl es tgs) =
     Inr (next_rowid (seq_tasks db) (map t_id (tasks db)))"
  by (simp add: add_task_def Let_def)

lemma add_task_tasks:
  "sqlite_int pr \<Longrightarrow>
   tasks (snd (add_task db now ti de ca pr dl es tgs)) =
     tasks db @ [\<lparr>t_id = next_rowid (seq_tasks db) (map t_id (tasks db)), title = ti,
                   description = de, category = ca, priority = pr, status = ''pending'',
                   deadline = dl, created_at = now, completed_at = None,
                   estimated_hours = es, actual_hours = None\<rparr>]"
  by (simp add: add_task_def Let_def split: option.split)

lemma add_task_history [simp]:
  "task_history (snd (add_task db now ti de ca pr dl es tgs)) = task_history db"
  by (simp add: add_task_def Let_def split: option.split)

lemma add_task_tag:
  "sqlite_int pr \<Longrightarrow>
   map tag (tags (snd (add_task db now ti de ca pr dl es tgs))) =
     map tag (tags db) @ (case tgs of None \<Rightarrow> [] | Some ts \<Rightarrow> map strip ts)"
  by (simp add: add_task_def Let_def insert_tags_tag split: option.split)

lemma next_rowid_fresh: "next_rowid (seq_tasks db) (map t_id (tasks db)) \<notin> t_id ` set (tasks db)"
  using next_rowid_gt_ids [of _ "map t_id (tasks db)" "seq_tasks db"] by fastforce

subsection \<open>Rows that are absent\<close>

lemma update_where_absent: "task_id \<notin> t_id ` set (tasks db) \<Longrightarrow> update_where task_id f db = db"
proof -
  assume a: "task_id \<notin> t_id ` set (tasks db)"
  have "map (\<lambda>t. if t_id t = task_id then f t else t) (tasks db) = tasks db"
    by (rule map_idI) (use a in auto)
  then show ?thesis by (simp add: update_where_def)
qed

lemma fetchone_absent: "task_id \<notin> t_id ` set (tasks db) \<Longrightarrow> fetchone_task db task_id = None"
  by (auto simp: fetchone_task_def find_None_iff)

subsection \<open>Creating a task\<close>

text \<open>
  Claim C1 says that \<^verbatim>\<open>add_task\<close> with an empty title fails with a validation error
  before any write. \<^verbatim>\<open>add_task\<close> does not look at the title: on the new database the
  call with the empty title returns the id 1 and leaves a task row and a tag row.
\<close>

theorem add_task_empty_title_counterexample:
  "add_task init_db ''2024-01-01 00:00:00'' [] [] ''general'' 3 None 0 (Some [''home'']) =
     (Inr 1, \<lparr>tasks = [\<lparr>t_id = 1, title = [], description = [], category = ''general'',
                    priority = 3, status = ''pending'', deadline = None,
                    created_at = ''2024-01-01 00:00:00'', completed_at = None,
                    estimated_hours = 0, actual_hours = None\<rparr>],
          task_history = [],
          tags = [\<lparr>g_id = 1, g_task_id = 1, tag = ''home''\<rparr>],
          seq_tasks = 1, seq_task_history = 0, seq_tags = 1\<rparr>)"
  by (simp add: add_task_def sqlite_int_def init_db_def next_rowid_def insert_tag_def strip_def
      isspace_def Let_def)

text \<open>
  Claim C1, amended: \<^verbatim>\<open>add_task\<close> with an empty title raises nothing on account of the
  title. With a priority that SQLite can store it returns an id that no row of the table
  has and appends one task row, which has that id, the empty title, the arguments of the
  call, the status \<^verbatim>\<open>pending\<close>, the creation time of the clock and no completion
  time; and it appends one tag row for each tag, stripped. With a priority outside the 64-bit
  range the \<^verbatim>\<open>INSERT\<close> raises \<^verbatim>\<open>OverflowError\<close>, as it does for every title, and the
  store is unchanged.
\<close>

theorem add_task_empty_title:
  "(sqlite_int pr \<longrightarrow>
      (\<exists>i. fst (add_task db now [] de ca pr dl es tgs) = Inr i
            \<and> i \<notin> t_id ` set (tasks db)
            \<and> tasks (snd (add_task db now [] de ca pr dl es tgs)) =
                tasks db @ [\<lparr>t_id = i, title = [], description = de, category = ca,
                              priority = pr, status = ''pending'', deadline = dl,
                              created_at = now, completed_at = None,
                              estimated_hours = es, actual_hours = None\<rparr>])
      \<and> map tag (tags (snd (add_task db now [] de ca pr dl es tgs))) =
          map tag (tags db) @ (case tgs of None \<Rightarrow> [] | Some ts \<Rightarrow> map strip ts))
   \<and> (\<not> sqlite_int pr \<longrightarrow>
        add_task db now [] de ca pr dl es tgs = (Inl OverflowError, db))"
  using add_task_tasks [of pr db now "[]" de ca dl es tgs]
    add_task_tag [of pr db now "[]" de ca dl es tgs]
    add_task_returns [of pr db now "[]" de ca dl es tgs]
    add_task_overflow [of pr db now "[]" de ca dl es tgs]
    next_rowid_fresh [of db]
  by simp

theorem add_task_empty_title_witness:
  "sqlite_int 3
   \<and> (\<exists>i. fst (add_task init_db ''2024-01-01 00:00:00'' [] [] ''general'' 3 None 0
                  (Some ['' home ''])) = Inr i
          \<and> map title (tasks (snd (add_task init_db ''2024-01-01 00:00:00'' [] [] ''general'' 3
                                      None 0 (Some ['' home ''])))) = [[]]
          \<and> map t_id (tasks (snd (add_task init_db ''2024-01-01 00:00:00'' [] [] ''general'' 3
                                     None 0 (Some ['' home ''])))) = [i])
   \<and> map tag (tags (snd (add_task init_db ''2024-01-01 00:00:00'' [] [] ''general'' 3 None 0
                            (Some ['' home ''])))) = [''home'']"
proof -
  have h: "sqlite_int 3"
    by (simp add: sqlite_int_def)
  have e: "tasks init_db = [] \<and> tags init_db = []"
    by (simp add: init_db_def)
  have s: "strip '' home '' = ''home''"
    by (simp add: strip_def isspace_def)
  show ?thesis
    using h e s
      add_task_empty_title [of 3 init_db "''2024-01-01 00:00:00''" "[]" "''general''" None 0
        "Some ['' home '']"]
    by auto
qed

subsection \<open>Operations on an id that is not in the table\<close>

text \<open>
  Claim C3 says that \<^verbatim>\<open>update_task\<close> and \<^verbatim>\<open>complete_task\<close> fail with a not-found
  error on an id that is absent. On the new database \<^verbatim>\<open>complete_task\<close> of id 1 and
  \<^verbatim>\<open>update_task\<close> of id 1 with a new title return with no exception; the database is
  as before.
\<close>

theorem absent_id_counterexample:
  "complete_task (\<lambda>s. None) init_db ''2024-01-01T00:00:00'' 1 None = (None, init_db)
   \<and> update_task init_db 1 [Title ''x''] = (None, init_db)"
  by (simp add: complete_task_def sqlite_int_def fetchone_task_def init_db_def update_task_def
      update_where_def allowed_fields_def)

text \<open>
  Claim C3, amended: for an id that no task row has, \<^verbatim>\<open>update_task\<close> with any keyword
  arguments and \<^verbatim>\<open>complete_task\<close> with any hours leave the database unchanged and no
  call fails for the missing row. Where the id, and for \<^verbatim>\<open>update_task\<close> the new
  priority, are integers that SQLite can store, the call returns without an exception;
  otherwise it raises \<^verbatim>\<open>OverflowError\<close> (\<^verbatim>\<open>update_task\<close> only when a keyword names an
  updatable column, since it runs no statement otherwise).
\<close>

theorem absent_id_no_effect:
  assumes "task_id \<notin> t_id ` set (tasks db)"
  shows "snd (update_task db task_id kwargs) = db
         \<and> snd (complete_task fromisoformat db now task_id hours) = db
         \<and> fst (complete_task fromisoformat db now task_id hours) =
             (if sqlite_int task_id then None else Some OverflowError)
         \<and> fst (update_task db task_id kwargs) =
             (if filter (\<lambda>k. field_name k \<in> set allowed_fields) kwargs = []
                 \<or> (list_all kwarg_fits (filter (\<lambda>k. field_name k \<in> set allowed_fields) kwargs)
                     \<and> sqlite_int task_id)
              then None else Some OverflowError)"
  using assms
  by (simp add: update_task_def Let_def update_where_absent complete_task_def fetchone_absent)

theorem absent_id_no_effect_witness:
  "(7::int) \<notin> t_id ` set (tasks init_db)
   \<and> update_task init_db 7 [Priority 1] = (None, init_db)
   \<and> complete_task (\<lambda>s. None) init_db ''2024-01-01T00:00:00'' 7 (Some 2) = (None, init_db)
   \<and> update_task init_db 9223372036854775808 [Priority 1] = (Some OverflowError, init_db)
   \<and> complete_task (\<lambda>s. None) init_db ''2024-01-01T00:00:00'' 9223372036854775808 (Some 2) =
       (Some OverflowError, init_db)"
proof -
  have h: "(7::int) \<notin> t_id ` set (tasks init_db)"
    by (simp add: init_db_def)
  have g: "(9223372036854775808::int) \<notin> t_id ` set (tasks init_db)"
    by (simp add: init_db_def)
  have a: "filter (\<lambda>k. field_name k \<in> set allowed_fields) [Priority 1] = [Priority 1]"
    by (simp add: allowed_fields_def)
  have r: "sqlite_int 7 \<and> sqlite_int 1 \<and> \<not> sqlite_int 9223372036854775808"
    by (simp add: sqlite_int_def)
  show ?thesis
    using h a r
      absent_id_no_effect [OF h, of "[Priority 1]" "\<lambda>s. None" "''2024-01-01T00:00:00''" "Some 2"]
      absent_id_no_effect [OF g, of "[Priority 1]" "\<lambda>s. None" "''2024-01-01T00:00:00''" "Some 2"]
    by (simp add: prod_eq_iff)
qed

subsection \<open>Suggested priority\<close>

text \<open>
  The guard \<^verbatim>\<open>deadline_days and deadline_days <= 3\<close> is false for a deadline of 0 days,
  so the table of the fallback heuristic holds for every other deadline only.
\<close>

lemma heuristic_priority_table:
  "deadline_days \<noteq> Some 0 \<Longrightarrow>
   heuristic_priority e deadline_days =
     (let rest = (if e > 15 then 2 else if e > 5 then 3 else 4)
      in case deadline_days of
           None \<Rightarrow> rest
         | Some n \<Rightarrow> if n \<le> 3 then 1 else if n \<le> 7 then 2 else rest)"
  by (auto simp: heuristic_priority_def days_within_def truthy_int_def Let_def split: option.split)

text \<open>
  Claim C4 gives priority 1 to every deadline of at most 3 days when the category has no
  history. A deadline of 0 days (the next midnight is less than a day away) with an estimate
  of 0 hours gets priority 4.
\<close>

theorem suggest_priority_zero_days:
  "suggest_priority init_db ''general'' 0 (Some 0) = 4"
  by (simp add: suggest_priority_def select_history_def init_db_def heuristic_priority_def
      days_within_def truthy_int_def)

subsection \<open>The order of \<^verbatim>\<open>get_tasks\<close>\<close>

lemma two_deadlines_value:
  "two_deadlines =
     \<lparr>tasks = [\<lparr>t_id = 1, title = ''report'', description = [], category = ''work'',
                priority = 3, status = ''pending'', deadline = Some ''2024-06-01T00:00:00'',
                created_at = ''2024-05-01 09:00:00'', completed_at = None,
                estimated_hours = 2, actual_hours = None\<rparr>,
               \<lparr>t_id = 2, title = ''reading'', description = [], category = ''home'',
                priority = 3, status = ''pending'', deadline = None,
                created_at = ''2024-05-01 09:05:00'', completed_at = None,
                estimated_hours = 1, actual_hours = None\<rparr>],
      task_history = [],
      tags = [\<lparr>g_id = 1, g_task_id = 1, tag = ''office''\<rparr>,
              \<lparr>g_id = 2, g_task_id = 2, tag = ''books''\<rparr>],
      seq_tasks = 2, seq_task_history = 0, seq_tags = 2\<rparr>"
  by (simp add: two_deadlines_def add_task_def sqlite_int_def init_db_def next_rowid_def
      insert_tag_def strip_def isspace_def Let_def)

lemma get_tasks_two_deadlines:
  "get_tasks two_deadlines None None =
     [(\<lparr>t_id = 2, title = ''reading'', description = [], category = ''home'',
        priority = 3, status = ''pending'', deadline = None,
        created_at = ''2024-05-01 09:05:00'', completed_at = None,
        estimated_hours = 1, actual_hours = None\<rparr>, [''books'']),
      (\<lparr>t_id = 1, title = ''report'', description = [], category = ''work'',
        priority = 3, status = ''pending'', deadline = Some ''2024-06-01T00:00:00'',
        created_at = ''2024-05-01 09:00:00'', completed_at = None,
        estimated_hours = 2, actual_hours = None\<rparr>, [''office''])]"
  by (simp add: two_deadlines_value get_tasks_def matches_def truthy_str_def order_key_def
      select_tags_def)

lemma get_tasks_rows:
  "map fst (get_tasks db st ca) = sort_key order_key (filter (matches st ca) (tasks db))"
  by (simp add: get_tasks_def comp_def)

lemma get_tasks_sorted: "sorted (map order_key (map fst (get_tasks db st ca)))"
  by (simp only: get_tasks_rows sorted_sort_key)

lemma order_key_le:
  "order_key a \<le> order_key b \<longleftrightarrow>
     priority a \<le> priority b \<and>
     (priority a = priority b \<longrightarrow>
        (case deadline a of
           None \<Rightarrow> True
         | Some x \<Rightarrow> (case deadline b of None \<Rightarrow> False | Some y \<Rightarrow> x \<le> y)))"
  by (auto simp: order_key_def split: option.splits)

text \<open>
  Claim C5 puts a task without a deadline after the tasks of its priority that have one.
  \<^verbatim>\<open>ORDER BY deadline ASC\<close> puts \<^verbatim>\<open>NULL\<close> first: of two tasks of priority 3, the
  one without a deadline (id 2) comes before the one with a deadline (id 1).
\<close>

theorem get_tasks_null_deadline_first:
  "map (\<lambda>d. (t_id (fst d), priority (fst d), deadline (fst d)))
       (get_tasks two_deadlines None None) =
     [(2, 3, None), (1, 3, Some ''2024-06-01T00:00:00'')]"
  by (simp add: get_tasks_two_deadlines)

text \<open>
  Claim C5, amended: for every store and every filter, \<^verbatim>\<open>get_tasks\<close> is ordered by
  priority ascending and, within one priority, by deadline ascending, the tasks without a
  deadline coming before the tasks that have one.
\<close>

theorem get_tasks_order:
  assumes "i < j" and "j < length (get_tasks db st ca)"
  shows "priority (fst (get_tasks db st ca ! i)) \<le> priority (fst (get_tasks db st ca ! j))
         \<and> (priority (fst (get_tasks db st ca ! i)) = priority (fst (get_tasks db st ca ! j)) \<longrightarrow>
              (case deadline (fst (get_tasks db st ca ! i)) of
                 None \<Rightarrow> True
               | Some x \<Rightarrow>
                   (case deadline (fst (get_tasks db st ca ! j)) of
                      None \<Rightarrow> False
                    | Some y \<Rightarrow> x \<le> y)))"
proof -
  let ?r = "get_tasks db st ca"
  have "sorted (map order_key (map fst ?r))"
    by (rule get_tasks_sorted)
  moreover have "i \<le> j" and "j < length (map order_key (map fst ?r))"
    using assms by simp_all
  ultimately have "map order_key (map fst ?r) ! i \<le> map order_key (map fst ?r) ! j"
    by (rule sorted_nth_mono)
  then have "order_key (fst (?r ! i)) \<le> order_key (fst (?r ! j))"
    using assms by simp
  then show ?thesis
    by (simp add: order_key_le)
qed

theorem get_tasks_order_witness:
  "(0::nat) < 1 \<and> 1 < length (get_tasks two_deadlines None None)
   \<and> priority (fst (get_tasks two_deadlines None None ! 0)) = 3
   \<and> priority (fst (get_tasks two_deadlines None None ! 1)) = 3
   \<and> deadline (fst (get_tasks two_deadlines None None ! 0)) = None
   \<and> deadline (fst (get_tasks two_deadlines None None ! 1)) = Some ''2024-06-01T00:00:00''"
proof -
  have h1: "(0::nat) < 1"
    by simp
  have h2: "1 < length (get_tasks two_deadlines None None)"
    by (simp add: get_tasks_two_deadlines)
  show ?thesis
    using h1 h2 get_tasks_order [OF h1 h2] by (simp add: get_tasks_two_deadlines)
qed

subsection \<open>Updating a row\<close>

lemma matches_None [simp]: "matches None None t"
  by (simp add: matches_def truthy_str_def)

lemma get_tasks_all: "fst ` set (get_tasks db None None) = set (tasks db)"
proof -
  have "set (map fst (get_tasks db None None)) = set (tasks db)"
    by (simp only: get_tasks_rows) simp
  then show ?thesis by simp
qed

lemma t_id_set_column [simp]: "t_id (set_column k t) = t_id t"
  by (cases k) simp_all

lemma t_id_fold_set_column [simp]: "t_id (fold set_column ks t) = t_id t"
  by (induction ks arbitrary: t) simp_all

lemma completed_at_set_column [simp]: "completed_at (set_column k t) = completed_at t"
  by (cases k) simp_all

lemma completed_at_fold_set_column [simp]: "completed_at (fold set_column ks t) = completed_at t"
  by (induction ks arbitrary: t) simp_all

lemma find_update:
  assumes "\<And>t. t_id (g t) = t_id t"
  shows "find (\<lambda>t. t_id t = i) (map (\<lambda>t. if t_id t = j then g t else t) xs) =
         map_option (\<lambda>t. if t_id t = j then g t else t) (find (\<lambda>t. t_id t = i) xs)"
  by (induction xs) (simp_all add: assms)

lemma fetchone_update_where:
  assumes "\<And>t. t_id (g t) = t_id t"
  shows "fetchone_task (update_where j g db) i =
         map_option (\<lambda>t. if t_id t = j then g t else t) (fetchone_task db i)"
  by (simp add: fetchone_task_def update_where_def find_update [OF assms])

lemma fetchone_in_tasks: "fetchone_task db i = Some t \<Longrightarrow> t \<in> set (tasks db) \<and> t_id t = i"
  by (auto simp: fetchone_task_def find_Some_iff)

lemma priority_fold_set_column:
  "\<forall>q. Priority q \<in> set ks \<longrightarrow> q = p \<Longrightarrow>
   priority (fold set_column ks t) = (if Priority p \<in> set ks then p else priority t)"
proof (induction ks arbitrary: t)
  case Nil
  show ?case by simp
next
  case (Cons k ks)
  then have ih: "priority (fold set_column ks (set_column k t)) =
      (if Priority p \<in> set ks then p else priority (set_column k t))"
    by simp
  show ?case
  proof (cases k)
    case (Priority q)
    with Cons.prems have "q = p" by simp
    with Priority ih show ?thesis by simp
  qed (use ih in auto)
qed

lemma allowed_priority [simp]: "''priority'' \<in> set allowed_fields"
  by (simp add: allowed_fields_def)

lemma kwarg_fits_priority:
  "\<forall>q. Priority q \<in> set ks \<longrightarrow> sqlite_int q \<Longrightarrow> list_all kwarg_fits ks"
proof (induction ks)
  case Nil
  show ?case by simp
next
  case (Cons k ks)
  then show ?case by (cases k) simp_all
qed

lemma kwarg_fits_member: "list_all kwarg_fits ks \<Longrightarrow> Priority q \<in> set ks \<Longrightarrow> sqlite_int q"
  by (auto simp: list_all_iff)

lemma update_task_fits:
  assumes "filter (\<lambda>k. field_name k \<in> set allowed_fields) kwargs \<noteq> []"
    and "list_all kwarg_fits (filter (\<lambda>k. field_name k \<in> set allowed_fields) kwargs)"
    and "sqlite_int i"
  shows "update_task db i kwargs =
           (None, update_where i
                    (\<lambda>t. fold set_column (filter (\<lambda>k. field_name k \<in> set allowed_fields) kwargs) t)
                    db)"
  using assms by (simp add: update_task_def Let_def)

text \<open>
  Claim C10 says that every integer priority is accepted without error. A Python integer
  is unbounded and the priority column is a 64-bit \<^verbatim>\<open>INTEGER\<close>: with the priority
  \<open>2\<^sup>6\<^sup>3\<close> both \<^verbatim>\<open>add_task\<close> and \<^verbatim>\<open>update_task\<close> raise \<^verbatim>\<open>OverflowError\<close> and
  store nothing.
\<close>

theorem priority_overflow_counterexample:
  "add_task two_deadlines ''2024-05-02 08:00:00'' ''plan'' [] ''work'' 9223372036854775808
       None 0 None =
     (Inl OverflowError, two_deadlines)
   \<and> update_task two_deadlines 1 [Priority 9223372036854775808] =
       (Some OverflowError, two_deadlines)"
  by (simp add: add_task_def update_task_def sqlite_int_def allowed_fields_def)

text \<open>
  Claim C10, amended: no operation validates or clamps a priority. For every integer \<open>p\<close>
  that SQLite can store, whether inside 1 to 5 or not, \<^verbatim>\<open>add_task\<close> returns without error
  and stores a row of priority \<open>p\<close> that \<^verbatim>\<open>get_tasks\<close> returns, and \<^verbatim>\<open>update_task\<close>
  of an existing row with the keyword \<^verbatim>\<open>priority=p\<close> (given once, with any other
  keywords) returns without error and leaves the row with priority \<open>p\<close>, which
  \<^verbatim>\<open>get_tasks\<close> returns. For an integer outside the 64-bit range both raise
  \<^verbatim>\<open>OverflowError\<close> and leave the store unchanged.
\<close>

theorem priority_stored_unchanged:
  "(sqlite_int p \<longrightarrow>
      (\<exists>i t. fst (add_task db now ti de ca p dl es tgs) = Inr i
             \<and> t \<in> fst ` set (get_tasks (snd (add_task db now ti de ca p dl es tgs)) None None)
             \<and> t_id t = i \<and> priority t = p))
   \<and> (sqlite_int p \<and> sqlite_int i \<and> fetchone_task db i = Some t0 \<and> Priority p \<in> set kwargs
        \<and> (\<forall>q. Priority q \<in> set kwargs \<longrightarrow> q = p) \<longrightarrow>
      fst (update_task db i kwargs) = None
      \<and> (\<exists>t. fetchone_task (snd (update_task db i kwargs)) i = Some t \<and> priority t = p
             \<and> t \<in> fst ` set (get_tasks (snd (update_task db i kwargs)) None None)))
   \<and> (\<not> sqlite_int p \<longrightarrow>
        add_task db now ti de ca p dl es tgs = (Inl OverflowError, db)
        \<and> (Priority p \<in> set kwargs \<longrightarrow> update_task db i kwargs = (Some OverflowError, db)))"
proof (intro conjI impI)
  assume p: "sqlite_int p"
  let ?i = "next_rowid (seq_tasks db) (map t_id (tasks db))"
  let ?t = "\<lparr>t_id = ?i, title = ti, description = de, category = ca, priority = p,
             status = ''pending'', deadline = dl, created_at = now, completed_at = None,
             estimated_hours = es, actual_hours = None\<rparr>"
  have "?t \<in> set (tasks (snd (add_task db now ti de ca p dl es tgs)))"
    using p by (simp add: add_task_tasks)
  then have "?t \<in> fst ` set (get_tasks (snd (add_task db now ti de ca p dl es tgs)) None None)"
    by (simp only: get_tasks_all)
  moreover have "fst (add_task db now ti de ca p dl es tgs) = Inr ?i"
    using p by (rule add_task_returns)
  ultimately show "\<exists>i t. fst (add_task db now ti de ca p dl es tgs) = Inr i
             \<and> t \<in> fst ` set (get_tasks (snd (add_task db now ti de ca p dl es tgs)) None None)
             \<and> t_id t = i \<and> priority t = p"
    by (intro exI [of _ ?i] exI [of _ ?t]) simp
next
  assume a: "sqlite_int p \<and> sqlite_int i \<and> fetchone_task db i = Some t0
        \<and> Priority p \<in> set kwargs \<and> (\<forall>q. Priority q \<in> set kwargs \<longrightarrow> q = p)"
  let ?ups = "filter (\<lambda>k. field_name k \<in> set allowed_fields) kwargs"
  have in_ups: "Priority p \<in> set ?ups"
    using a by simp
  then have ne: "?ups \<noteq> []"
    by (metis empty_iff empty_set)
  have only: "\<forall>q. Priority q \<in> set ?ups \<longrightarrow> q = p"
    using a by simp
  then have "\<forall>q. Priority q \<in> set ?ups \<longrightarrow> sqlite_int q"
    using a by blast
  then have fits: "list_all kwarg_fits ?ups"
    by (rule kwarg_fits_priority)
  have id0: "t_id t0 = i"
    using a fetchone_in_tasks by blast
  have upd: "update_task db i kwargs = (None, update_where i (\<lambda>t. fold set_column ?ups t) db)"
    using ne fits a by (intro update_task_fits) simp_all
  have f: "fetchone_task (snd (update_task db i kwargs)) i = Some (fold set_column ?ups t0)"
    using a id0 by (simp add: upd fetchone_update_where)
  have pr: "priority (fold set_column ?ups t0) = p"
    using priority_fold_set_column [OF only, of t0] in_ups by simp
  have "fold set_column ?ups t0 \<in> set (tasks (snd (update_task db i kwargs)))"
    using f fetchone_in_tasks by blast
  then have "fold set_column ?ups t0
      \<in> fst ` set (get_tasks (snd (update_task db i kwargs)) None None)"
    by (simp only: get_tasks_all)
  with f pr show "\<exists>t. fetchone_task (snd (update_task db i kwargs)) i = Some t \<and> priority t = p
           \<and> t \<in> fst ` set (get_tasks (snd (update_task db i kwargs)) None None)"
    by blast
  show "fst (update_task db i kwargs) = None"
    by (simp add: upd)
next
  assume "\<not> sqlite_int p"
  then show "add_task db now ti de ca p dl es tgs = (Inl OverflowError, db)"
    by (rule add_task_overflow)
next
  assume n: "\<not> sqlite_int p" and k: "Priority p \<in> set kwargs"
  let ?ups = "filter (\<lambda>k. field_name k \<in> set allowed_fields) kwargs"
  have in_ups: "Priority p \<in> set ?ups"
    using k by simp
  then have ne: "?ups \<noteq> []"
    by (metis empty_iff empty_set)
  have "\<not> list_all kwarg_fits ?ups"
    using in_ups n kwarg_fits_member by blast
  then show "update_task db i kwargs = (Some OverflowError, db)"
    using ne by (simp add: update_task_def Let_def)
qed

theorem priority_stored_unchanged_witness:
  "sqlite_int 99 \<and> sqlite_int 1
   \<and> (\<exists>t0. fetchone_task two_deadlines 1 = Some t0)
   \<and> Priority 99 \<in> set [Title ''audit'', Priority 99]
   \<and> (\<exists>t \<in> fst ` set (get_tasks (snd (add_task two_deadlines ''2024-05-02 08:00:00''
                                  ''plan'' [] ''work'' 99 None 0 None)) None None).
         priority t = 99)
   \<and> fst (update_task two_deadlines 1 [Title ''audit'', Priority 99]) = None
   \<and> (\<exists>t. fetchone_task (snd (update_task two_deadlines 1 [Title ''audit'', Priority 99])) 1
            = Some t
          \<and> priority t = 99
          \<and> t \<in> fst ` set (get_tasks
                               (snd (update_task two_deadlines 1 [Title ''audit'', Priority 99]))
                               None None))"
proof -
  obtain t0 where h: "fetchone_task two_deadlines 1 = Some t0"
    by (simp add: fetchone_task_def two_deadlines_value)
  have r: "sqlite_int 99 \<and> sqlite_int 1"
    by (simp add: sqlite_int_def)
  have k: "Priority 99 \<in> set [Title ''audit'', Priority 99]"
    by simp
  have u: "\<forall>q. Priority q \<in> set [Title ''audit'', Priority 99] \<longrightarrow> q = 99"
    by simp
  show ?thesis
    using h r k u
      priority_stored_unchanged [of 99 two_deadlines "''2024-05-02 08:00:00''" "''plan''" "[]"
        "''work''" None 0 None 1 t0 "[Title ''audit'', Priority 99]"]
    by blast
qed

subsection \<open>Deleting a task\<close>

lemma select_tags_delete_other:
  "j \<noteq> i \<Longrightarrow> select_tags (delete_task db i) j = select_tags db j"
proof -
  assume "j \<noteq> i"
  then have "filter (\<lambda>g. g_task_id g = j) (filter (\<lambda>g. g_task_id g \<noteq> i) (tags db)) =
        filter (\<lambda>g. g_task_id g = j) (tags db)"
    by (auto intro: filter_cong)
  then show ?thesis by (simp add: select_tags_def delete_task_def)
qed

lemma get_tasks_delete:
  "get_tasks (delete_task db i) st ca = filter (\<lambda>d. t_id (fst d) \<noteq> i) (get_tasks db st ca)"
proof -
  let ?rows = "sort_key order_key (filter (matches st ca) (tasks db))"
  have rows: "sort_key order_key (filter (matches st ca) (tasks (delete_task db i))) =
        filter (\<lambda>t. t_id t \<noteq> i) ?rows"
    by (simp add: delete_task_def filter_sort conj_commute)
  have "map (\<lambda>t. (t, select_tags (delete_task db i) (t_id t))) (filter (\<lambda>t. t_id t \<noteq> i) ?rows) =
        map (\<lambda>t. (t, select_tags db (t_id t))) (filter (\<lambda>t. t_id t \<noteq> i) ?rows)"
    by (rule map_cong) (simp_all add: select_tags_delete_other)
  also have "\<dots> = filter (\<lambda>d. t_id (fst d) \<noteq> i) (map (\<lambda>t. (t, select_tags db (t_id t))) ?rows)"
    by (simp add: filter_map comp_def)
  finally show ?thesis
    by (simp add: get_tasks_def rows)
qed

text \<open>
  Claim C8: \<^verbatim>\<open>delete_task\<close> removes the task rows and the tag rows of the id and nothing
  else. The history table and its queries are as before, so are the counters of the three
  tables, and for every filter \<^verbatim>\<open>get_tasks\<close> afterwards is \<^verbatim>\<open>get_tasks\<close> before
  without the entries of that id: the task is gone, every other task is there with the same
  columns and the same tags, in the same order.
\<close>

theorem delete_task_frame:
  "tasks (delete_task db i) = filter (\<lambda>t. t_id t \<noteq> i) (tasks db)
   \<and> tags (delete_task db i) = filter (\<lambda>g. g_task_id g \<noteq> i) (tags db)
   \<and> task_history (delete_task db i) = task_history db
   \<and> select_history (delete_task db i) c = select_history db c
   \<and> seq_tasks (delete_task db i) = seq_tasks db
   \<and> seq_tags (delete_task db i) = seq_tags db
   \<and> seq_task_history (delete_task db i) = seq_task_history db
   \<and> get_tasks (delete_task db i) st ca = filter (\<lambda>d. t_id (fst d) \<noteq> i) (get_tasks db st ca)
   \<and> i \<notin> t_id ` fst ` set (get_tasks (delete_task db i) st ca)"
proof -
  have "i \<notin> t_id ` fst ` set (filter (\<lambda>d. t_id (fst d) \<noteq> i) (get_tasks db st ca))"
    by auto
  then show ?thesis
    by (simp only: get_tasks_delete) (simp add: delete_task_def select_history_def)
qed

theorem delete_task_frame_witness:
  "map (\<lambda>d. (t_id (fst d), snd d)) (get_tasks (delete_task two_deadlines 1) None None) =
     [(2, [''books''])]
   \<and> task_history (delete_task two_deadlines 1) = task_history two_deadlines"
  using delete_task_frame [of two_deadlines 1 "[]" None None]
  by (simp add: get_tasks_two_deadlines)

subsection \<open>Completing a task\<close>

lemma sqlite_int_1 [simp]: "sqlite_int 1"
  by (simp add: sqlite_int_def)

lemma late_task_value:
  "late_task =
     \<lparr>tasks = [\<lparr>t_id = 1, title = ''report'', description = [], category = ''work'',
                priority = 1, status = ''pending'', deadline = Some ''2024-04-30T00:00:00'',
                created_at = ''2024-05-01 09:00:00'', completed_at = None,
                estimated_hours = 4, actual_hours = None\<rparr>],
      task_history = [], tags = [], seq_tasks = 1, seq_task_history = 0, seq_tags = 0\<rparr>"
  by (simp add: late_task_def add_task_def init_db_def next_rowid_def Let_def)

lemma quick_done_value:
  "quick_done =
     \<lparr>tasks = [\<lparr>t_id = 1, title = ''report'', description = [], category = ''work'',
                priority = 1, status = ''completed'', deadline = Some ''2024-04-30T00:00:00'',
                created_at = ''2024-05-01 09:00:00'',
                completed_at = Some ''2024-05-01T09:03:45'',
                estimated_hours = 4, actual_hours = Some 2\<rparr>],
      task_history = [\<lparr>h_id = 1, h_task_id = 1, h_category = ''work'',
                       h_estimated_hours = 4, h_actual_hours = Some 2,
                       days_to_deadline = Some (- 2), completion_time_hours = 1 / 16\<rparr>],
      tags = [], seq_tasks = 1, seq_task_history = 1, seq_tags = 0\<rparr>"
  by (simp add: quick_done_def late_task_value complete_task_def log_history_def
      fetchone_task_def update_where_def example_fromisoformat_def deadline_days_of_def
      truthy_str_def timedelta_days_def total_seconds_def insert_history_def next_rowid_def
      Let_def)

lemma vague_task_value:
  "vague_task =
     \<lparr>tasks = [\<lparr>t_id = 1, title = ''report'', description = [], category = ''work'',
                priority = 1, status = ''pending'', deadline = Some ''next friday'',
                created_at = ''2024-05-01 09:00:00'', completed_at = None,
                estimated_hours = 4, actual_hours = None\<rparr>],
      task_history = [], tags = [], seq_tasks = 1, seq_task_history = 0, seq_tags = 0\<rparr>"
  by (simp add: vague_task_def add_task_def init_db_def next_rowid_def Let_def)

lemma offset_task_value:
  "offset_task =
     \<lparr>tasks = [\<lparr>t_id = 1, title = ''report'', description = [], category = ''work'',
                priority = 1, status = ''pending'',
                deadline = Some ''2024-06-01T00:00:00+00:00'',
                created_at = ''2024-05-01 09:00:00'', completed_at = None,
                estimated_hours = 4, actual_hours = None\<rparr>],
      task_history = [], tags = [], seq_tasks = 1, seq_task_history = 0, seq_tags = 0\<rparr>"
  by (simp add: offset_task_def add_task_def init_db_def next_rowid_def Let_def)

lemma fetchone_tasks_cong: "tasks db = tasks db' \<Longrightarrow> fetchone_task db i = fetchone_task db' i"
  by (simp add: fetchone_task_def)

lemma insert_history_frame [simp]:
  "tasks (insert_history r db) = tasks db"
  "tags (insert_history r db) = tags db"
  "seq_tasks (insert_history r db) = seq_tasks db"
  "seq_tags (insert_history r db) = seq_tags db"
  by (simp_all add: insert_history_def Let_def)

lemma update_where_frame [simp]:
  "task_history (update_where j g db) = task_history db"
  "tags (update_where j g db) = tags db"
  "seq_tasks (update_where j g db) = seq_tasks db"
  "seq_tags (update_where j g db) = seq_tags db"
  "seq_task_history (update_where j g db) = seq_task_history db"
  by (simp_all add: update_where_def)

lemma datetime_sub_error: "datetime_sub a b = Inl e \<Longrightarrow> e = TypeError"
  by (cases a; cases b) simp_all

text \<open>
  After the \<^verbatim>\<open>UPDATE\<close>, \<^verbatim>\<open>complete_task\<close> leaves the updated store, with or without
  a history row.
\<close>

lemma log_history_cases:
  "\<exists>r. snd (log_history f db1 c i h t) = db1
       \<or> snd (log_history f db1 c i h t) = insert_history r db1"
proof (cases "f (created_at t)")
  case None
  then show ?thesis by (simp add: log_history_def)
next
  case created: (Some created)
  show ?thesis
  proof (cases "f c")
    case None
    then show ?thesis using created by (simp add: log_history_def)
  next
    case completed: (Some completed)
    show ?thesis
    proof (cases "datetime_sub completed created")
      case (Inl e)
      then show ?thesis using created completed by (simp add: log_history_def)
    next
      case delta: (Inr delta)
      show ?thesis
      proof (cases "deadline_days_of f (deadline t) created")
        case (Inl e)
        then show ?thesis using created completed delta by (simp add: log_history_def)
      next
        case (Inr days)
        then show ?thesis using created completed delta by (simp add: log_history_def) blast
      qed
    qed
  qed
qed

lemma complete_task_overflow:
  "\<not> sqlite_int i \<Longrightarrow> complete_task f db now i h = (Some OverflowError, db)"
  by (simp add: complete_task_def)

lemma complete_task_absent:
  "fetchone_task db i = None \<Longrightarrow> snd (complete_task f db now i h) = db"
  by (simp add: complete_task_def)

lemma complete_task_present:
  "sqlite_int i \<Longrightarrow> fetchone_task db i = Some t \<Longrightarrow>
   complete_task f db now i h =
     log_history f
       (update_where i (\<lambda>t. t\<lparr>status := ''completed'', completed_at := Some now,
                               actual_hours := h\<rparr>) db)
       now i h t"
  by (simp add: complete_task_def)

lemma complete_task_tasks:
  "tasks (snd (complete_task f db now i h)) =
     (if sqlite_int i then
        (case fetchone_task db i of
           None \<Rightarrow> tasks db
         | Some t \<Rightarrow>
             tasks (update_where i
                      (\<lambda>t. t\<lparr>status := ''completed'', completed_at := Some now,
                              actual_hours := h\<rparr>) db))
      else tasks db)"
proof (cases "sqlite_int i")
  case False
  then show ?thesis by (simp add: complete_task_overflow)
next
  case True
  show ?thesis
  proof (cases "fetchone_task db i")
    case None
    then show ?thesis using True by (simp add: complete_task_absent)
  next
    case (Some t)
    let ?db1 = "update_where i (\<lambda>t. t\<lparr>status := ''completed'', completed_at := Some now,
                                        actual_hours := h\<rparr>) db"
    from log_history_cases [of f ?db1 now i h t]
    have "tasks (snd (log_history f ?db1 now i h t)) = tasks ?db1"
      by auto
    then show ?thesis
      using True Some by (simp add: complete_task_present)
  qed
qed

lemma complete_task_tags [simp]: "tags (snd (complete_task f db now i h)) = tags db"
proof (cases "sqlite_int i")
  case False
  then show ?thesis by (simp add: complete_task_overflow)
next
  case True
  show ?thesis
  proof (cases "fetchone_task db i")
    case None
    then show ?thesis by (simp add: complete_task_absent)
  next
    case (Some t)
    let ?db1 = "update_where i (\<lambda>t. t\<lparr>status := ''completed'', completed_at := Some now,
                                        actual_hours := h\<rparr>) db"
    from log_history_cases [of f ?db1 now i h t]
    have "tags (snd (log_history f ?db1 now i h t)) = tags ?db1"
      by auto
    then show ?thesis
      using True Some by (simp add: complete_task_present)
  qed
qed

lemma complete_task_seq_tasks [simp]: "seq_tasks (snd (complete_task f db now i h)) = seq_tasks db"
proof (cases "sqlite_int i")
  case False
  then show ?thesis by (simp add: complete_task_overflow)
next
  case True
  show ?thesis
  proof (cases "fetchone_task db i")
    case None
    then show ?thesis by (simp add: complete_task_absent)
  next
    case (Some t)
    let ?db1 = "update_where i (\<lambda>t. t\<lparr>status := ''completed'', completed_at := Some now,
                                        actual_hours := h\<rparr>) db"
    from log_history_cases [of f ?db1 now i h t]
    have "seq_tasks (snd (log_history f ?db1 now i h t)) = seq_tasks ?db1"
      by auto
    then show ?thesis
      using True Some by (simp add: complete_task_present)
  qed
qed

lemma fetchone_complete_task:
  "fetchone_task (snd (complete_task f db now j h)) i =
     (if sqlite_int j then
        (case fetchone_task db j of
           None \<Rightarrow> fetchone_task db i
         | Some t \<Rightarrow>
             map_option
               (\<lambda>t. if t_id t = j
                     then t\<lparr>status := ''completed'', completed_at := Some now,
                            actual_hours := h\<rparr>
                     else t)
               (fetchone_task db i))
      else fetchone_task db i)"
proof (cases "sqlite_int j")
  case False
  then show ?thesis by (simp add: complete_task_overflow)
next
  case True
  show ?thesis
  proof (cases "fetchone_task db j")
    case None
    then show ?thesis
      using True by (simp add: complete_task_absent)
  next
    case (Some t)
    let ?g = "\<lambda>t. t\<lparr>status := ''completed'', completed_at := Some now, actual_hours := h\<rparr>"
    have "tasks (snd (complete_task f db now j h)) = tasks (update_where j ?g db)"
      using True Some by (simp add: complete_task_tasks)
    then have "fetchone_task (snd (complete_task f db now j h)) i =
          fetchone_task (update_where j ?g db) i"
      by (rule fetchone_tasks_cong)
    then show ?thesis
      using True Some by (simp add: fetchone_update_where)
  qed
qed

text \<open>
  Claim C6 says that every call of \<^verbatim>\<open>complete_task\<close> on an existing task appends one
  history row. \<^verbatim>\<open>add_task\<close> takes any text as a deadline, and \<^verbatim>\<open>complete_task\<close>
  parses it after the \<^verbatim>\<open>UPDATE\<close>: on the task whose deadline is \<^verbatim>\<open>next friday\<close> the
  call raises \<^verbatim>\<open>ValueError\<close>, on the task whose deadline has an offset it raises
  \<^verbatim>\<open>TypeError\<close>, and in both cases the task row is completed and the history is empty.
\<close>

theorem complete_task_unread_deadline:
  "fetchone_task vague_task 1 \<noteq> None
   \<and> fst (complete_task example_fromisoformat vague_task ''2024-05-01T09:03:45'' 1 (Some 2)) =
       Some ValueError
   \<and> task_history (snd (complete_task example_fromisoformat vague_task
                          ''2024-05-01T09:03:45'' 1 (Some 2))) = []
   \<and> map status (tasks (snd (complete_task example_fromisoformat vague_task
                                ''2024-05-01T09:03:45'' 1 (Some 2)))) = [''completed'']
   \<and> fst (complete_task example_fromisoformat offset_task ''2024-05-01T09:03:45'' 1 (Some 2)) =
       Some TypeError
   \<and> task_history (snd (complete_task example_fromisoformat offset_task
                          ''2024-05-01T09:03:45'' 1 (Some 2))) = []"
  by (simp add: vague_task_value offset_task_value complete_task_def log_history_def
      fetchone_task_def update_where_def example_fromisoformat_def deadline_days_of_def
      truthy_str_def Let_def)

text \<open>
  Claim C6, amended: take a call of \<^verbatim>\<open>complete_task\<close> on an existing task whose creation
  time and completion time \<^verbatim>\<open>fromisoformat\<close> reads as datetimes of one kind. When the
  task has no deadline, or an empty one, the call appends exactly one history row without
  \<^verbatim>\<open>days_to_deadline\<close>. When the deadline is a text that \<^verbatim>\<open>fromisoformat\<close> reads as a
  datetime of the kind of the creation time, the call appends exactly one history row, whose
  \<^verbatim>\<open>days_to_deadline\<close> is the difference between deadline and creation in whole days,
  rounded down and not clamped (the witness has a deadline before the creation and gets
  \<open>- 2\<close>). In both cases \<^verbatim>\<open>completion_time_hours\<close> is the difference between completion
  and creation in hours, category and estimate are the task's and the actual hours the
  argument. When \<^verbatim>\<open>fromisoformat\<close> does not read the deadline the call raises
  \<^verbatim>\<open>ValueError\<close>, when it reads it as a datetime of the other kind the call raises
  \<^verbatim>\<open>TypeError\<close>, and then no history row is appended.
\<close>

theorem complete_task_history:
  assumes "sqlite_int i"
    and "fetchone_task db i = Some t"
    and "fromisoformat (created_at t) = Some created"
    and "fromisoformat now = Some completed"
    and "datetime_sub completed created = Inr delta"
  shows
    "(let r = complete_task fromisoformat db now i h;
          row = (\<lambda>days.
                   \<lparr>h_id = next_rowid (seq_task_history db) (map h_id (task_history db)),
                    h_task_id = i, h_category = category t,
                    h_estimated_hours = estimated_hours t, h_actual_hours = h,
                    days_to_deadline = days,
                    completion_time_hours = of_int delta / 1000000 / 3600\<rparr>)
      in case deadline t of
           None \<Rightarrow> fst r = None \<and> task_history (snd r) = task_history db @ [row None]
         | Some d \<Rightarrow>
             if d = [] then fst r = None \<and> task_history (snd r) = task_history db @ [row None]
             else
               (case fromisoformat d of
                  None \<Rightarrow> fst r = Some ValueError \<and> task_history (snd r) = task_history db
                | Some deadline' \<Rightarrow>
                    (case datetime_sub deadline' created of
                       Inl e \<Rightarrow> fst r = Some TypeError \<and> task_history (snd r) = task_history db
                     | Inr us \<Rightarrow>
                         fst r = None
                         \<and> task_history (snd r) =
                             task_history db @ [row (Some (us div 86400000000))])))"
proof -
  let ?db1 = "update_where i (\<lambda>t. t\<lparr>status := ''completed'', completed_at := Some now,
                                      actual_hours := h\<rparr>) db"
  have r: "complete_task fromisoformat db now i h = log_history fromisoformat ?db1 now i h t"
    using assms(1,2) by (rule complete_task_present)
  have l: "log_history fromisoformat ?db1 now i h t =
      (case deadline_days_of fromisoformat (deadline t) created of
         Inl e \<Rightarrow> (Some e, ?db1)
       | Inr days \<Rightarrow>
           (None,
            insert_history
              \<lparr>h_id = 0, h_task_id = i, h_category = category t,
                h_estimated_hours = estimated_hours t, h_actual_hours = h,
                days_to_deadline = days,
                completion_time_hours = total_seconds delta / 3600\<rparr> ?db1))"
    using assms(3-5) by (simp add: log_history_def)
  show ?thesis
  proof (cases "deadline t")
    case None
    then have "deadline_days_of fromisoformat (deadline t) created = Inr None"
      by (simp add: deadline_days_of_def truthy_str_def)
    then show ?thesis
      using None by (simp add: r l insert_history_def total_seconds_def Let_def)
  next
    case (Some d)
    show ?thesis
    proof (cases "d = []")
      case True
      then have "deadline_days_of fromisoformat (deadline t) created = Inr None"
        using Some by (simp add: deadline_days_of_def truthy_str_def)
      then show ?thesis
        using Some True by (simp add: r l insert_history_def total_seconds_def Let_def)
    next
      case False
      show ?thesis
      proof (cases "fromisoformat d")
        case None
        then have "deadline_days_of fromisoformat (deadline t) created = Inl ValueError"
          using Some False by (simp add: deadline_days_of_def truthy_str_def)
        then show ?thesis
          using Some False None by (simp add: r l Let_def)
      next
        case dl: (Some deadline')
        show ?thesis
        proof (cases "datetime_sub deadline' created")
          case (Inl e)
          then have "e = TypeError"
            by (rule datetime_sub_error)
          with Inl have "deadline_days_of fromisoformat (deadline t) created = Inl TypeError"
            using Some False dl by (simp add: deadline_days_of_def truthy_str_def)
          then show ?thesis
            using Some False dl Inl by (simp add: r l Let_def)
        next
          case (Inr us)
          then have "deadline_days_of fromisoformat (deadline t) created =
              Inr (Some (us div 86400000000))"
            using Some False dl
            by (simp add: deadline_days_of_def truthy_str_def timedelta_days_def)
          then show ?thesis
            using Some False dl Inr
            by (simp add: r l insert_history_def total_seconds_def Let_def)
        qed
      qed
    qed
  qed
qed

theorem complete_task_history_witness:
  "sqlite_int 1
   \<and> fst (complete_task example_fromisoformat late_task ''2024-05-01T09:03:45'' 1 (Some 2)) = None
   \<and> task_history (snd (complete_task example_fromisoformat late_task
                          ''2024-05-01T09:03:45'' 1 (Some 2))) =
       [\<lparr>h_id = 1, h_task_id = 1, h_category = ''work'', h_estimated_hours = 4,
         h_actual_hours = Some 2, days_to_deadline = Some (- 2),
         completion_time_hours = 1 / 16\<rparr>]"
proof -
  let ?t = "\<lparr>t_id = 1, title = ''report'', description = [], category = ''work'',
                priority = 1, status = ''pending'', deadline = Some ''2024-04-30T00:00:00'',
                created_at = ''2024-05-01 09:00:00'', completed_at = None,
                estimated_hours = 4, actual_hours = None\<rparr>"
  have h0: "sqlite_int 1"
    by simp
  have h1: "fetchone_task late_task 1 = Some ?t"
    by (simp add: late_task_value fetchone_task_def)
  have h2: "example_fromisoformat (created_at ?t) = Some (Naive 0)"
    by (simp add: example_fromisoformat_def)
  have h3: "example_fromisoformat ''2024-05-01T09:03:45'' = Some (Naive 225000000)"
    by (simp add: example_fromisoformat_def)
  have h4: "datetime_sub (Naive 225000000) (Naive 0) = Inr 225000000"
    by simp
  have d: "example_fromisoformat ''2024-04-30T00:00:00'' = Some (Naive (- 118800000000))"
    by (simp add: example_fromisoformat_def)
  show ?thesis
    using h0 complete_task_history [OF h0 h1 h2 h3 h4, of "Some 2"]
    by (simp add: Let_def d late_task_value next_rowid_def)
qed

subsection \<open>Statistics\<close>

lemma round2_zero [simp]: "round2 0 = 0"
  by (simp add: round2_def)

lemma round2_close: "\<bar>round2 x - x\<bar> \<le> 1 / 200"
proof -
  define y where "y = x * 100"
  define f where "f = \<lfloor>y\<rfloor>"
  define r where "r = (if y - of_int f < 1 / 2 then f
                       else if 1 / 2 < y - of_int f then f + 1
                       else if even f then f else f + 1)"
  have lo: "of_int f \<le> y" and hi: "y < of_int f + 1"
    by (simp_all add: f_def)
  have b: "\<bar>of_int r - y\<bar> \<le> 1 / 2"
    using lo hi by (auto simp: r_def)
  have eq: "round2 x - x = (of_int r - y) / 100"
    by (simp add: round2_def Let_def r_def f_def y_def)
  have e: "\<bar>round2 x - x\<bar> = \<bar>of_int r - y\<bar> / 100"
    unfolding eq by (simp add: abs_divide)
  show ?thesis
    unfolding e using b by simp
qed

lemma quick_done_history:
  "map completion_time_hours (task_history quick_done) = [1 / 16]"
  by (simp add: quick_done_value)

text \<open>
  Claim C7 takes \<^verbatim>\<open>avg_completion_hours\<close> to be the average of the completion times.
  \<^verbatim>\<open>get_statistics\<close> rounds the average to two decimals: with one history row of 225
  seconds, a sixteenth of an hour, the average is 0.0625 and the statistic is 0.06.
\<close>

theorem average_rounded_counterexample:
  "sum_list (map completion_time_hours (task_history quick_done))
     / real (length (task_history quick_done)) = 1 / 16
   \<and> avg_completion_hours (get_statistics quick_done ''2024-05-01T09:04:00'') = 3 / 50"
  by (simp add: quick_done_value get_statistics_def sql_avg_def truthy_float_def round2_def Let_def)

text \<open>
  Claim C7, amended: \<^verbatim>\<open>avg_completion_hours\<close> is the average of
  \<^verbatim>\<open>completion_time_hours\<close> over all history rows, whatever their category, rounded to
  two decimals (so within 0.005 of the average), and 0 when there is no history;
  \<^verbatim>\<open>overdue\<close> is the number of tasks whose deadline is strictly before the current
  time, as texts, and whose status is not \<^verbatim>\<open>completed\<close>; on an empty store the two
  breakdowns are empty and both numbers are 0.
\<close>

theorem get_statistics_values:
  "avg_completion_hours (get_statistics db now) =
     (if task_history db = [] then 0
      else round2 (sum_list (map completion_time_hours (task_history db))
                     / real (length (task_history db))))
   \<and> (task_history db \<noteq> [] \<longrightarrow>
        \<bar>avg_completion_hours (get_statistics db now)
           - sum_list (map completion_time_hours (task_history db))
               / real (length (task_history db))\<bar> \<le> 1 / 200)
   \<and> overdue (get_statistics db now) =
       length (filter (\<lambda>t. (\<exists>d. deadline t = Some d \<and> d < now) \<and> status t \<noteq> ''completed'')
                 (tasks db))
   \<and> (tasks db = [] \<and> task_history db = [] \<longrightarrow>
        get_statistics db now =
          \<lparr>by_status = [], by_category = [], avg_completion_hours = 0, overdue = 0\<rparr>)"
proof -
  let ?avg = "sum_list (map completion_time_hours (task_history db))
                / real (length (task_history db))"
  have a: "avg_completion_hours (get_statistics db now) =
      (if task_history db = [] then 0 else round2 ?avg)"
    by (simp add: get_statistics_def sql_avg_def truthy_float_def Let_def)
  have b: "task_history db \<noteq> [] \<longrightarrow>
      \<bar>avg_completion_hours (get_statistics db now) - ?avg\<bar> \<le> 1 / 200"
    using round2_close [of ?avg] by (simp add: a)
  have ov: "is_overdue now =
      (\<lambda>t. (\<exists>d. deadline t = Some d \<and> d < now) \<and> status t \<noteq> ''completed'')"
    by (auto simp: is_overdue_def fun_eq_iff split: option.splits)
  have c: "overdue (get_statistics db now) =
       length (filter (\<lambda>t. (\<exists>d. deadline t = Some d \<and> d < now) \<and> status t \<noteq> ''completed'')
                 (tasks db))"
    by (simp add: get_statistics_def Let_def ov)
  have d: "tasks db = [] \<and> task_history db = [] \<longrightarrow>
        get_statistics db now =
          \<lparr>by_status = [], by_category = [], avg_completion_hours = 0, overdue = 0\<rparr>"
    by (simp add: get_statistics_def sql_avg_def group_count_def Let_def)
  from a b c d show ?thesis
    by blast
qed

lemma quick_done_tasks:
  "tasks quick_done =
     [\<lparr>t_id = 1, title = ''report'', description = [], category = ''work'',
       priority = 1, status = ''completed'', deadline = Some ''2024-04-30T00:00:00'',
       created_at = ''2024-05-01 09:00:00'', completed_at = Some ''2024-05-01T09:03:45'',
       estimated_hours = 4, actual_hours = Some 2\<rparr>]"
  by (simp add: quick_done_value)

lemma late_task_tasks:
  "tasks late_task =
     [\<lparr>t_id = 1, title = ''report'', description = [], category = ''work'',
       priority = 1, status = ''pending'', deadline = Some ''2024-04-30T00:00:00'',
       created_at = ''2024-05-01 09:00:00'', completed_at = None,
       estimated_hours = 4, actual_hours = None\<rparr>]"
  by (simp add: late_task_value)

theorem get_statistics_values_witness:
  "task_history quick_done \<noteq> []
   \<and> avg_completion_hours (get_statistics quick_done ''2024-05-01T09:04:00'') = round2 (1 / 16)
   \<and> \<bar>avg_completion_hours (get_statistics quick_done ''2024-05-01T09:04:00'') - 1 / 16\<bar>
       \<le> 1 / 200
   \<and> overdue (get_statistics late_task ''2024-05-01T09:04:00'') = 1
   \<and> overdue (get_statistics quick_done ''2024-05-01T09:04:00'') = 0
   \<and> tasks init_db = [] \<and> task_history init_db = []
   \<and> get_statistics init_db ''2024-05-01T09:04:00'' =
       \<lparr>by_status = [], by_category = [], avg_completion_hours = 0, overdue = 0\<rparr>"
proof -
  have h: "task_history quick_done \<noteq> []"
    using quick_done_history by auto
  have n: "real (length (task_history quick_done)) = 1"
    using arg_cong [OF quick_done_history, of length] by simp
  have e: "tasks init_db = [] \<and> task_history init_db = []"
    by (simp add: init_db_def)
  note q = get_statistics_values [of quick_done "''2024-05-01T09:04:00''"]
  note l = get_statistics_values [of late_task "''2024-05-01T09:04:00''"]
  note i = get_statistics_values [of init_db "''2024-05-01T09:04:00''"]
  have 1: "avg_completion_hours (get_statistics quick_done ''2024-05-01T09:04:00'') =
      round2 (1 / 16)"
    using q h by (simp add: quick_done_history n)
  from q h
  have "\<bar>avg_completion_hours (get_statistics quick_done ''2024-05-01T09:04:00'')
          - sum_list (map completion_time_hours (task_history quick_done))
              / real (length (task_history quick_done))\<bar> \<le> 1 / 200"
    by blast
  then have 2: "\<bar>avg_completion_hours (get_statistics quick_done ''2024-05-01T09:04:00'') - 1 / 16\<bar>
       \<le> 1 / 200"
    by (simp add: quick_done_history n)
  have 3: "overdue (get_statistics late_task ''2024-05-01T09:04:00'') = 1"
    using l by (simp add: late_task_tasks)
  have 4: "overdue (get_statistics quick_done ''2024-05-01T09:04:00'') = 0"
    using q by (simp add: quick_done_tasks)
  have 5: "get_statistics init_db ''2024-05-01T09:04:00'' =
       \<lparr>by_status = [], by_category = [], avg_completion_hours = 0, overdue = 0\<rparr>"
    using i e by blast
  from h 1 2 3 4 e 5 show ?thesis
    by blast
qed

subsection \<open>The completion time of a row\<close>

lemma find_append_Some: "find P xs = Some x \<Longrightarrow> find P (xs @ ys) = Some x"
  by (induction xs) (auto split: if_splits)

lemma find_filter_implied: "(\<And>x. P x \<Longrightarrow> Q x) \<Longrightarrow> find P (filter Q xs) = find P xs"
  by (induction xs) auto

lemma fetchone_add_task:
  "fetchone_task db i = Some t \<Longrightarrow>
   fetchone_task (snd (add_task db now ti de ca pr dl es tgs)) i = Some t"
  by (cases "sqlite_int pr")
    (simp_all add: fetchone_task_def add_task_tasks add_task_overflow find_append_Some)

lemma fetchone_update_task:
  assumes "fetchone_task db i = Some t"
  shows "\<exists>t'. fetchone_task (snd (update_task db j kwargs)) i = Some t'
              \<and> completed_at t' = completed_at t"
proof (cases "filter (\<lambda>k. field_name k \<in> set allowed_fields) kwargs = []")
  case True
  then show ?thesis using assms by (simp add: update_task_def)
next
  case False
  then show ?thesis using assms by (simp add: update_task_def Let_def fetchone_update_where)
qed

lemma fetchone_delete_other:
  "j \<noteq> i \<Longrightarrow> fetchone_task (delete_task db j) i = fetchone_task db i"
proof -
  assume "j \<noteq> i"
  then have "find (\<lambda>t. t_id t = i) (filter (\<lambda>t. t_id t \<noteq> j) (tasks db)) =
        find (\<lambda>t. t_id t = i) (tasks db)"
    by (intro find_filter_implied) simp
  then show ?thesis
    by (simp add: fetchone_task_def delete_task_def)
qed

lemma fetchone_complete_same:
  assumes "fetchone_task db i = Some t"
  shows "fetchone_task (snd (complete_task f db now i h)) i =
         Some (if sqlite_int i
               then t\<lparr>status := ''completed'', completed_at := Some now, actual_hours := h\<rparr>
               else t)"
  using assms fetchone_in_tasks [OF assms] by (simp add: fetchone_complete_task)

lemma fetchone_complete_other:
  assumes "fetchone_task db i = Some t" and "j \<noteq> i"
  shows "fetchone_task (snd (complete_task f db now j h)) i = Some t"
  using assms fetchone_in_tasks [OF assms(1)]
  by (simp add: fetchone_complete_task split: option.split)

text \<open>
  Claim C2 says that \<^verbatim>\<open>completed_at\<close> is set exactly when the status is
  \<^verbatim>\<open>completed\<close>, and that a second \<^verbatim>\<open>complete_task\<close> changes nothing in the row.
  On the task completed at 09:03:45 with 2 hours, a second \<^verbatim>\<open>complete_task\<close> a day
  later with 5 hours replaces both the completion time and the hours;
  \<^verbatim>\<open>update_task\<close> with \<^verbatim>\<open>status='pending'\<close> leaves a pending row with a completion
  time; and on the task not yet completed \<^verbatim>\<open>update_task\<close> with
  \<^verbatim>\<open>status='completed'\<close> leaves a completed row without one.
\<close>

theorem completion_time_counterexample:
  "map (\<lambda>t. (status t, completed_at t, actual_hours t)) (tasks quick_done) =
     [(''completed'', Some ''2024-05-01T09:03:45'', Some 2)]
   \<and> map (\<lambda>t. (status t, completed_at t, actual_hours t))
         (tasks (snd (complete_task example_fromisoformat quick_done
                        ''2024-05-02T10:00:00'' 1 (Some 5)))) =
       [(''completed'', Some ''2024-05-02T10:00:00'', Some 5)]
   \<and> map (\<lambda>t. (status t, completed_at t, actual_hours t))
         (tasks (snd (update_task quick_done 1 [Status ''pending'']))) =
       [(''pending'', Some ''2024-05-01T09:03:45'', Some 2)]
   \<and> map (\<lambda>t. (status t, completed_at t, actual_hours t))
         (tasks (snd (update_task late_task 1 [Status ''completed'']))) =
       [(''completed'', None, None)]"
  by (simp add: quick_done_tasks late_task_tasks complete_task_tasks fetchone_task_def
      update_where_def update_task_def allowed_fields_def)

text \<open>
  Claim C2, amended: only \<^verbatim>\<open>complete_task\<close> writes \<^verbatim>\<open>completed_at\<close>, and nothing
  clears it. For a task that is in the store, \<^verbatim>\<open>add_task\<close> leaves its row as it is,
  \<^verbatim>\<open>update_task\<close> of any id leaves its \<^verbatim>\<open>completed_at\<close> as it is,
  \<^verbatim>\<open>complete_task\<close> and \<^verbatim>\<open>delete_task\<close> of another id leave its row as it is, and
  \<^verbatim>\<open>complete_task\<close> of its id sets the status \<^verbatim>\<open>completed\<close>, the completion time
  of that call and the hours of that call. So after a second \<^verbatim>\<open>complete_task\<close> the
  status is still \<^verbatim>\<open>completed\<close>, and \<^verbatim>\<open>completed_at\<close> and \<^verbatim>\<open>actual_hours\<close>
  are those of the second call. This holds of the store whether the call returns or raises;
  the id of a row is a rowid of SQLite, and for an id that SQLite cannot take
  \<^verbatim>\<open>complete_task\<close> raises before it reads, leaving the row as it is.
\<close>

theorem completion_time_operations:
  assumes "fetchone_task db i = Some t"
  shows "fetchone_task (snd (add_task db stamp ti de ca pr dl es tgs)) i = Some t
     \<and> (\<exists>t'. fetchone_task (snd (update_task db j kwargs)) i = Some t'
              \<and> completed_at t' = completed_at t)
     \<and> fetchone_task (snd (complete_task f db now i h)) i =
         Some (if sqlite_int i
               then t\<lparr>status := ''completed'', completed_at := Some now, actual_hours := h\<rparr>
               else t)
     \<and> fetchone_task
         (snd (complete_task f (snd (complete_task f db now i h)) now' i h')) i =
         Some (if sqlite_int i
               then t\<lparr>status := ''completed'', completed_at := Some now', actual_hours := h'\<rparr>
               else t)
     \<and> (j \<noteq> i \<longrightarrow> fetchone_task (snd (complete_task f db now j h)) i = Some t)
     \<and> (j \<noteq> i \<longrightarrow> fetchone_task (delete_task db j) i = Some t)"
proof -
  have twice: "fetchone_task
         (snd (complete_task f (snd (complete_task f db now i h)) now' i h')) i =
         Some (if sqlite_int i
               then t\<lparr>status := ''completed'', completed_at := Some now', actual_hours := h'\<rparr>
               else t)"
    using fetchone_complete_same [OF fetchone_complete_same [OF assms, of f now h], of f now' h']
    by simp
  show ?thesis
    using assms twice
    by (simp add: fetchone_add_task fetchone_update_task fetchone_complete_same
        fetchone_complete_other fetchone_delete_other)
qed

theorem completion_time_operations_witness:
  "fetchone_task late_task 1 \<noteq> None
   \<and> map_option completed_at
       (fetchone_task (snd (add_task late_task ''2024-05-01 09:05:00'' ''reading'' []
                              ''home'' 3 None 1 None)) 1) = Some None
   \<and> map_option (\<lambda>t. (status t, completed_at t, actual_hours t))
       (fetchone_task (snd (complete_task example_fromisoformat late_task
                              ''2024-05-01T09:03:45'' 1 (Some 2))) 1) =
       Some (''completed'', Some ''2024-05-01T09:03:45'', Some 2)
   \<and> map_option (\<lambda>t. (status t, completed_at t, actual_hours t))
       (fetchone_task
          (snd (complete_task example_fromisoformat
                  (snd (complete_task example_fromisoformat late_task
                          ''2024-05-01T09:03:45'' 1 (Some 2)))
                  ''2024-05-02T10:00:00'' 1 (Some 5))) 1) =
       Some (''completed'', Some ''2024-05-02T10:00:00'', Some 5)
   \<and> (2::int) \<noteq> 1
   \<and> map_option completed_at (fetchone_task (delete_task late_task 2) 1) = Some None"
proof -
  let ?t = "\<lparr>t_id = 1, title = ''report'', description = [], category = ''work'',
             priority = 1, status = ''pending'', deadline = Some ''2024-04-30T00:00:00'',
             created_at = ''2024-05-01 09:00:00'', completed_at = None,
             estimated_hours = 4, actual_hours = None\<rparr>"
  have h: "fetchone_task late_task 1 = Some ?t"
    by (simp add: fetchone_task_def late_task_tasks)
  show ?thesis
    using h
      completion_time_operations [OF h, where ?stamp = "''2024-05-01 09:05:00''"
        and ?ti = "''reading''" and ?de = "[]" and ?ca = "''home''" and ?pr = 3 and ?dl = None
        and ?es = 1 and ?tgs = None and ?j = 2 and ?kwargs = "[]"
        and ?f = example_fromisoformat and ?now = "''2024-05-01T09:03:45''"
        and ?h = "Some 2" and ?now' = "''2024-05-02T10:00:00''" and ?h' = "Some 5"]
    by simp
qed

subsection \<open>Stripping twice\<close>

lemma dropWhile_rev_dropWhile_rev:
  assumes "a = [] \<or> \<not> P (hd a)"
  shows "dropWhile P (rev (dropWhile P (rev a))) = rev (dropWhile P (rev a))"
proof (cases "dropWhile P (rev a) = []")
  case True
  then show ?thesis by (simp del: dropWhile_eq_Nil_conv)
next
  case False
  define b where "b = dropWhile P (rev a)"
  have "rev a = takeWhile P (rev a) @ b"
    by (simp add: b_def)
  then have "rev (rev a) = rev (takeWhile P (rev a) @ b)"
    by (rule arg_cong)
  then have a: "a = rev b @ rev (takeWhile P (rev a))"
    by simp
  have nb: "rev b \<noteq> []"
    using False by (simp add: b_def)
  then obtain x xs where r: "rev b = x # xs"
    by (cases "rev b") auto
  have "hd a = x"
    using a r by (metis append_Cons list.sel(1))
  moreover have "a \<noteq> []"
    using a nb by auto
  ultimately have "\<not> P x"
    using assms by auto
  then have "dropWhile P (rev b) = rev b"
    by (simp add: r)
  then show ?thesis
    by (simp add: b_def)
qed

lemma strip_idem: "strip (strip s) = strip s"
proof -
  define a where "a = dropWhile isspace s"
  have "a = [] \<or> \<not> isspace (hd a)"
    using hd_dropWhile [of isspace s] by (auto simp: a_def)
  then have "dropWhile isspace (rev (dropWhile isspace (rev a))) = rev (dropWhile isspace (rev a))"
    by (rule dropWhile_rev_dropWhile_rev)
  then show ?thesis
    by (simp add: strip_def a_def)
qed

subsection \<open>The invariant\<close>

lemma fold_max_le: "\<forall>x\<in>set ids. x \<le> s \<Longrightarrow> fold max ids (s::int) = s"
  by (induction ids arbitrary: s) (simp_all add: max_absorb2)

lemma next_rowid_inv:
  "store_inv db \<Longrightarrow> next_rowid (seq_tasks db) (map t_id (tasks db)) = seq_tasks db + 1"
  by (simp add: next_rowid_def store_inv_def fold_max_le)

lemma add_task_id:
  "store_inv db \<Longrightarrow> sqlite_int pr \<Longrightarrow>
   fst (add_task db now ti de ca pr dl es tgs) = Inr (seq_tasks db + 1)"
  by (simp add: add_task_returns next_rowid_inv)

lemma add_task_seq_tasks:
  "sqlite_int pr \<Longrightarrow>
   seq_tasks (snd (add_task db now ti de ca pr dl es tgs)) =
     next_rowid (seq_tasks db) (map t_id (tasks db))"
  by (simp add: add_task_def Let_def split: option.split)

lemma add_task_select_tags:
  assumes "sqlite_int pr"
  shows "select_tags (snd (add_task db now ti de ca pr dl es tgs)) j =
     select_tags db j @
       (case tgs of
          None \<Rightarrow> []
        | Some ts \<Rightarrow>
            if next_rowid (seq_tasks db) (map t_id (tasks db)) = j then map strip ts else [])"
proof (cases tgs)
  case None
  then show ?thesis
    using assms by (simp add: add_task_def Let_def select_tags_def)
next
  case (Some ts)
  let ?i = "next_rowid (seq_tasks db) (map t_id (tasks db))"
  let ?db1 = "db\<lparr>tasks := tasks db @
                 [\<lparr>t_id = ?i, title = ti, description = de, category = ca, priority = pr,
                   status = ''pending'', deadline = dl, created_at = now, completed_at = None,
                   estimated_hours = es, actual_hours = None\<rparr>],
               seq_tasks := ?i\<rparr>"
  have r: "add_task db now ti de ca pr dl es (Some ts) = (Inr ?i, insert_tags ?i ts ?db1)"
    using assms by (cases ts) (simp_all add: add_task_def Let_def)
  have "select_tags ?db1 j = select_tags db j"
    by (simp add: select_tags_def)
  then show ?thesis
    unfolding Some r by (simp add: select_tags_insert_tags)
qed

lemma insert_tags_set:
  "g \<in> set (tags (insert_tags i tgs db)) \<Longrightarrow>
   g \<in> set (tags db) \<or> (g_task_id g = i \<and> (\<exists>x. tag g = strip x))"
proof (induction tgs arbitrary: db)
  case Nil
  then show ?case by simp
next
  case (Cons a tgs)
  from Cons.IH [of "insert_tag i (strip a) db"] Cons.prems
  show ?case by (auto simp: insert_tag_def Let_def)
qed

lemma add_task_tags_set:
  "sqlite_int pr \<Longrightarrow> g \<in> set (tags (snd (add_task db now ti de ca pr dl es tgs))) \<Longrightarrow>
   g \<in> set (tags db)
   \<or> (g_task_id g = next_rowid (seq_tasks db) (map t_id (tasks db)) \<and> (\<exists>x. tag g = strip x))"
  by (auto simp: add_task_def Let_def split: option.splits if_splits dest: insert_tags_set)

lemma store_inv_init: "store_inv init_db"
  by (simp add: store_inv_def init_db_def)

lemma store_inv_add_task:
  assumes "store_inv db"
  shows "store_inv (snd (add_task db now ti de ca pr dl es tgs))"
proof (cases "sqlite_int pr")
  case False
  then show ?thesis
    using assms by (simp add: add_task_overflow)
next
  case True
  let ?r = "add_task db now ti de ca pr dl es tgs"
  have id: "next_rowid (seq_tasks db) (map t_id (tasks db)) = seq_tasks db + 1"
    using assms by (rule next_rowid_inv)
  have seq: "seq_tasks (snd ?r) = seq_tasks db + 1"
    using True by (simp add: add_task_seq_tasks id)
  have t: "\<forall>t \<in> set (tasks (snd ?r)). t_id t \<le> seq_tasks (snd ?r) \<and> sqlite_int (priority t)"
    using assms True by (auto simp: add_task_tasks seq id store_inv_def)
  have g: "\<forall>g \<in> set (tags (snd ?r)). g_task_id g \<le> seq_tasks (snd ?r) \<and> strip (tag g) = tag g"
  proof
    fix g
    assume "g \<in> set (tags (snd ?r))"
    with True
    have "g \<in> set (tags db)
        \<or> (g_task_id g = next_rowid (seq_tasks db) (map t_id (tasks db))
            \<and> (\<exists>x. tag g = strip x))"
      by (rule add_task_tags_set)
    then show "g_task_id g \<le> seq_tasks (snd ?r) \<and> strip (tag g) = tag g"
      using assms by (auto simp: seq id store_inv_def strip_idem)
  qed
  from t g show ?thesis
    by (simp add: store_inv_def)
qed

lemma store_inv_update_where:
  assumes "store_inv db" and "\<And>t. t_id (g t) = t_id t"
    and "\<And>t. sqlite_int (priority t) \<Longrightarrow> sqlite_int (priority (g t))"
  shows "store_inv (update_where j g db)"
  using assms by (auto simp: store_inv_def update_where_def)

lemma fold_set_column_fits:
  "list_all kwarg_fits ks \<Longrightarrow> sqlite_int (priority t) \<Longrightarrow>
   sqlite_int (priority (fold set_column ks t))"
proof (induction ks arbitrary: t)
  case Nil
  then show ?case by simp
next
  case (Cons k ks)
  then show ?case by (cases k) simp_all
qed

lemma store_inv_update_task:
  assumes "store_inv db"
  shows "store_inv (snd (update_task db j kwargs))"
proof -
  let ?ups = "filter (\<lambda>k. field_name k \<in> set allowed_fields) kwargs"
  show ?thesis
  proof (cases "?ups \<noteq> [] \<and> list_all kwarg_fits ?ups \<and> sqlite_int j")
    case True
    then have "snd (update_task db j kwargs) = update_where j (\<lambda>t. fold set_column ?ups t) db"
      by (simp add: update_task_def Let_def)
    moreover have "store_inv (update_where j (\<lambda>t. fold set_column ?ups t) db)"
      using assms True by (intro store_inv_update_where) (simp_all add: fold_set_column_fits)
    ultimately show ?thesis
      by simp
  next
    case False
    then have "snd (update_task db j kwargs) = db"
      by (auto simp: update_task_def Let_def)
    then show ?thesis
      using assms by simp
  qed
qed

lemma store_inv_tasks_cong:
  "store_inv db \<Longrightarrow> tasks db' = tasks db \<Longrightarrow> tags db' = tags db
   \<Longrightarrow> seq_tasks db' = seq_tasks db \<Longrightarrow> store_inv db'"
  by (simp add: store_inv_def)

lemma store_inv_complete_task:
  assumes "store_inv db"
  shows "store_inv (snd (complete_task f db now j h))"
proof (cases "sqlite_int j \<and> fetchone_task db j \<noteq> None")
  case False
  then have "snd (complete_task f db now j h) = db"
    by (auto simp: complete_task_overflow complete_task_absent)
  then show ?thesis
    using assms by simp
next
  case True
  let ?g = "\<lambda>t. t\<lparr>status := ''completed'', completed_at := Some now, actual_hours := h\<rparr>"
  have u: "store_inv (update_where j ?g db)"
    using assms by (rule store_inv_update_where) simp_all
  have "tasks (snd (complete_task f db now j h)) = tasks (update_where j ?g db)"
    using True by (auto simp: complete_task_tasks)
  with u show ?thesis
    by (rule store_inv_tasks_cong) simp_all
qed

lemma store_inv_delete_task: "store_inv db \<Longrightarrow> store_inv (delete_task db j)"
  by (auto simp: store_inv_def delete_task_def)

lemma store_inv_perform: "store_inv db \<Longrightarrow> store_inv (perform f now c db)"
  by (cases c)
    (simp_all add: store_inv_add_task store_inv_update_task store_inv_complete_task
      store_inv_delete_task)

lemma reachable_store_inv: "reachable f db \<Longrightarrow> store_inv db"
  by (induction rule: reachable.induct) (simp_all add: store_inv_init store_inv_perform)

subsection \<open>Export and import\<close>

lemma count_list_insort_key: "count_list (insort_key f x xs) y = count_list (x # xs) y"
  by (induction xs) auto

lemma count_list_sort_key: "count_list (sort_key f xs) y = count_list xs y"
  by (induction xs) (simp_all add: count_list_insort_key)

lemma export_tasks_rows: "map fst (export_tasks db) = sort_key order_key (tasks db)"
  by (simp add: export_tasks_def get_tasks_rows)

lemma export_tasks_count: "count_list (map fst (export_tasks db)) t = count_list (tasks db) t"
  by (simp only: export_tasks_rows count_list_sort_key)

lemma export_tasks_length: "length (export_tasks db) = length (tasks db)"
  using arg_cong [OF export_tasks_rows, of length db] by simp

lemma export_tasks_set: "fst ` set (export_tasks db) = set (tasks db)"
  by (simp add: export_tasks_def get_tasks_all)

lemma export_tasks_tags:
  "k < length (export_tasks db) \<Longrightarrow>
   snd (export_tasks db ! k) = select_tags db (t_id (fst (export_tasks db ! k)))"
  by (simp add: export_tasks_def get_tasks_def)

lemma export_tasks_fits:
  "store_inv db \<Longrightarrow> \<forall>d \<in> set (export_tasks db). sqlite_int (priority (fst d))"
  using export_tasks_set [of db] by (auto simp: store_inv_def)

lemma import_tasks_Cons:
  assumes "sqlite_int (priority t)"
  shows "import_tasks db clock ((t, tg) # rest) =
         import_tasks
           (snd (add_task db (clock 0) (title t) (description t) (category t) (priority t)
                   (deadline t) (estimated_hours t) (Some tg)))
           (\<lambda>k. clock (Suc k)) rest"
proof -
  let ?a = "add_task db (clock 0) (title t) (description t) (category t) (priority t)
              (deadline t) (estimated_hours t) (Some tg)"
  have "fst ?a = Inr (next_rowid (seq_tasks db) (map t_id (tasks db)))"
    using assms by (rule add_task_returns)
  then obtain db1 where a: "?a = (Inr (next_rowid (seq_tasks db) (map t_id (tasks db))), db1)"
    by (cases ?a) simp
  show ?thesis
    by (simp add: a)
qed

lemma import_step:
  assumes "store_inv db" and "sqlite_int (priority t)"
  shows "tasks (snd (add_task db now (title t) (description t) (category t) (priority t)
                       (deadline t) (estimated_hours t) tgs)) =
           tasks db @ [imported_row (seq_tasks db + 1) now t]"
  using assms by (simp add: add_task_tasks next_rowid_inv imported_row_def)

lemma import_tasks_inv:
  "store_inv db \<Longrightarrow> \<forall>d \<in> set ds. sqlite_int (priority (fst d)) \<Longrightarrow>
   fst (import_tasks db clock ds) = None
   \<and> store_inv (snd (import_tasks db clock ds))
   \<and> seq_tasks (snd (import_tasks db clock ds)) = seq_tasks db + int (length ds)
   \<and> task_history (snd (import_tasks db clock ds)) = task_history db"
proof (induction ds arbitrary: db clock)
  case Nil
  then show ?case by simp
next
  case (Cons d ds)
  obtain t tg where d: "d = (t, tg)"
    by (cases d)
  have fit: "sqlite_int (priority t)"
    using Cons.prems(2) by (simp add: d)
  let ?db1 = "snd (add_task db (clock 0) (title t) (description t) (category t) (priority t)
                     (deadline t) (estimated_hours t) (Some tg))"
  have inv1: "store_inv ?db1"
    using Cons.prems(1) by (rule store_inv_add_task)
  have seq1: "seq_tasks ?db1 = seq_tasks db + 1"
    using Cons.prems(1) fit by (simp add: add_task_seq_tasks next_rowid_inv)
  have rest: "\<forall>d \<in> set ds. sqlite_int (priority (fst d))"
    using Cons.prems(2) by simp
  from Cons.IH [OF inv1 rest, of "\<lambda>k. clock (Suc k)"] seq1
  show ?case
    by (simp add: d import_tasks_Cons [OF fit] del: import_tasks.simps)
qed

lemma import_tasks_tasks:
  "store_inv db \<Longrightarrow> \<forall>d \<in> set ds. sqlite_int (priority (fst d)) \<Longrightarrow>
   tasks (snd (import_tasks db clock ds)) =
     tasks db @ map (\<lambda>k. imported_row (seq_tasks db + 1 + int k) (clock k) (fst (ds ! k)))
                  [0..<length ds]"
proof (induction ds arbitrary: db clock)
  case Nil
  then show ?case by simp
next
  case (Cons d ds)
  obtain t tg where d: "d = (t, tg)"
    by (cases d)
  have fit: "sqlite_int (priority t)"
    using Cons.prems(2) by (simp add: d)
  let ?db1 = "snd (add_task db (clock 0) (title t) (description t) (category t) (priority t)
                     (deadline t) (estimated_hours t) (Some tg))"
  have inv1: "store_inv ?db1"
    using Cons.prems(1) by (rule store_inv_add_task)
  have seq1: "seq_tasks ?db1 = seq_tasks db + 1"
    using Cons.prems(1) fit by (simp add: add_task_seq_tasks next_rowid_inv)
  have rest: "\<forall>d \<in> set ds. sqlite_int (priority (fst d))"
    using Cons.prems(2) by simp
  have tasks1: "tasks ?db1 = tasks db @ [imported_row (seq_tasks db + 1) (clock 0) t]"
    using Cons.prems(1) fit by (rule import_step)
  have "tasks (snd (import_tasks db clock (d # ds))) =
        tasks (snd (import_tasks ?db1 (\<lambda>k. clock (Suc k)) ds))"
    by (simp add: d import_tasks_Cons [OF fit] del: import_tasks.simps)
  also have "\<dots> = tasks ?db1 @
      map (\<lambda>k. imported_row (seq_tasks ?db1 + 1 + int k) (clock (Suc k)) (fst (ds ! k)))
        [0..<length ds]"
    using inv1 rest by (rule Cons.IH)
  also have "\<dots> = tasks db @
      map (\<lambda>k. imported_row (seq_tasks db + 1 + int k) (clock k) (fst ((d # ds) ! k)))
        [0..<length (d # ds)]"
    by (simp add: tasks1 seq1 d map_upt_Suc add.assoc del: upt_Suc)
  finally show ?case .
qed

lemma store_inv_no_tags_above:
  "store_inv db \<Longrightarrow> seq_tasks db < j \<Longrightarrow> select_tags db j = []"
  by (auto simp: store_inv_def select_tags_def filter_empty_conv)

lemma import_tasks_old_tags:
  "store_inv db \<Longrightarrow> \<forall>d \<in> set ds. sqlite_int (priority (fst d)) \<Longrightarrow> j \<le> seq_tasks db \<Longrightarrow>
   select_tags (snd (import_tasks db clock ds)) j = select_tags db j"
proof (induction ds arbitrary: db clock)
  case Nil
  then show ?case by simp
next
  case (Cons d ds)
  obtain t tg where d: "d = (t, tg)"
    by (cases d)
  have fit: "sqlite_int (priority t)"
    using Cons.prems(2) by (simp add: d)
  let ?a = "add_task db (clock 0) (title t) (description t) (category t) (priority t)
              (deadline t) (estimated_hours t) (Some tg)"
  have inv1: "store_inv (snd ?a)"
    using Cons.prems(1) by (rule store_inv_add_task)
  have id1: "next_rowid (seq_tasks db) (map t_id (tasks db)) = seq_tasks db + 1"
    using Cons.prems(1) by (rule next_rowid_inv)
  have seq1: "seq_tasks (snd ?a) = seq_tasks db + 1"
    using fit by (simp add: add_task_seq_tasks id1)
  have rest: "\<forall>d \<in> set ds. sqlite_int (priority (fst d))"
    using Cons.prems(2) by simp
  have "select_tags (snd (import_tasks (snd ?a) (\<lambda>k. clock (Suc k)) ds)) j =
        select_tags (snd ?a) j"
    using inv1 rest Cons.prems(3) by (intro Cons.IH) (simp_all add: seq1)
  also have "\<dots> = select_tags db j"
    using Cons.prems(3) fit by (simp add: add_task_select_tags id1)
  finally show ?case
    by (simp add: d import_tasks_Cons [OF fit] del: import_tasks.simps)
qed

lemma import_tasks_new_tags:
  "store_inv db \<Longrightarrow> \<forall>d \<in> set ds. sqlite_int (priority (fst d)) \<Longrightarrow> k < length ds \<Longrightarrow>
   select_tags (snd (import_tasks db clock ds)) (seq_tasks db + 1 + int k) =
     map strip (snd (ds ! k))"
proof (induction ds arbitrary: db clock k)
  case Nil
  then show ?case by simp
next
  case (Cons d ds)
  obtain t tg where d: "d = (t, tg)"
    by (cases d)
  have fit: "sqlite_int (priority t)"
    using Cons.prems(2) by (simp add: d)
  let ?a = "add_task db (clock 0) (title t) (description t) (category t) (priority t)
              (deadline t) (estimated_hours t) (Some tg)"
  have inv1: "store_inv (snd ?a)"
    using Cons.prems(1) by (rule store_inv_add_task)
  have id1: "next_rowid (seq_tasks db) (map t_id (tasks db)) = seq_tasks db + 1"
    using Cons.prems(1) by (rule next_rowid_inv)
  have seq1: "seq_tasks (snd ?a) = seq_tasks db + 1"
    using fit by (simp add: add_task_seq_tasks id1)
  have rest: "\<forall>d \<in> set ds. sqlite_int (priority (fst d))"
    using Cons.prems(2) by simp
  show ?case
  proof (cases k)
    case 0
    have "select_tags (snd (import_tasks (snd ?a) (\<lambda>k. clock (Suc k)) ds)) (seq_tasks db + 1) =
          select_tags (snd ?a) (seq_tasks db + 1)"
      using inv1 rest by (rule import_tasks_old_tags) (simp add: seq1)
    also have "\<dots> = select_tags db (seq_tasks db + 1) @ map strip tg"
      using fit by (simp add: add_task_select_tags id1)
    also have "\<dots> = map strip tg"
      using Cons.prems(1) by (simp add: store_inv_no_tags_above)
    finally show ?thesis
      by (simp add: d 0 import_tasks_Cons [OF fit] del: import_tasks.simps)
  next
    case (Suc k')
    then have "k' < length ds"
      using Cons.prems(3) by simp
    with inv1 rest
    have "select_tags (snd (import_tasks (snd ?a) (\<lambda>k. clock (Suc k)) ds))
            (seq_tasks (snd ?a) + 1 + int k') =
          map strip (snd (ds ! k'))"
      by (rule Cons.IH)
    then show ?thesis
      by (simp add: d Suc seq1 add.assoc add.commute add.left_commute
          import_tasks_Cons [OF fit] del: import_tasks.simps)
  qed
qed

lemma store_inv_select_tags_stripped:
  "store_inv db \<Longrightarrow> map strip (select_tags db j) = select_tags db j"
  by (auto simp: store_inv_def select_tags_def intro!: map_idI)

lemma get_tasks_member:
  "t \<in> set (tasks db) \<Longrightarrow> (t, select_tags db (t_id t)) \<in> set (get_tasks db None None)"
  by (simp add: get_tasks_def)

text \<open>
  Claim C9: on a store built from the new database by the operations of the manager, the
  list that \<^verbatim>\<open>export_tasks\<close> writes holds exactly the stored task rows, each once for
  each time it is stored, and each with the stored tags of its id. Importing that list
  raises nothing and appends one task for each exported task, in the order of the export
  and after the rows already there. The task appended for the entry number \<open>k\<close> has the
  title, description, category, priority, deadline and estimated hours of that entry, its
  tags are the entry's tags, \<^verbatim>\<open>get_tasks\<close> returns it with them, its creation time is the
  clock of its insertion, it has no completion time, and its id is neither an id of an
  earlier row nor the id of another imported task.
\<close>

theorem export_import_round_trip:
  assumes "reachable fromisoformat db" and "k < length (export_tasks db)"
  shows "(let ex = export_tasks db;
              db' = snd (import_tasks db clock ex);
              old = fst (ex ! k);
              new = tasks db' ! (length (tasks db) + k)
          in (\<forall>t. count_list (map fst ex) t = count_list (tasks db) t)
             \<and> length ex = length (tasks db)
             \<and> old \<in> set (tasks db)
             \<and> snd (ex ! k) = select_tags db (t_id old)
             \<and> fst (import_tasks db clock ex) = None
             \<and> length (tasks db') = length (tasks db) + length ex
             \<and> take (length (tasks db)) (tasks db') = tasks db
             \<and> title new = title old
             \<and> description new = description old
             \<and> category new = category old
             \<and> priority new = priority old
             \<and> deadline new = deadline old
             \<and> estimated_hours new = estimated_hours old
             \<and> select_tags db' (t_id new) = snd (ex ! k)
             \<and> (new, snd (ex ! k)) \<in> set (get_tasks db' None None)
             \<and> created_at new = clock k
             \<and> completed_at new = None
             \<and> t_id new \<notin> t_id ` set (tasks db)
             \<and> (\<forall>k' < length ex. k' \<noteq> k \<longrightarrow>
                   t_id (tasks db' ! (length (tasks db) + k')) \<noteq> t_id new))"
proof -
  define ex where "ex = export_tasks db"
  define db' where "db' = snd (import_tasks db clock ex)"
  define row where "row = (\<lambda>k. imported_row (seq_tasks db + 1 + int k) (clock k) (fst (ex ! k)))"
  have inv: "store_inv db"
    using assms(1) by (rule reachable_store_inv)
  have fits: "\<forall>d \<in> set ex. sqlite_int (priority (fst d))"
    unfolding ex_def using inv by (rule export_tasks_fits)
  have k: "k < length ex"
    using assms(2) by (simp add: ex_def)
  have cnt: "\<forall>t. count_list (map fst ex) t = count_list (tasks db) t"
    by (simp add: ex_def export_tasks_count)
  have lex: "length ex = length (tasks db)"
    by (simp add: ex_def export_tasks_length)
  have "fst (ex ! k) \<in> fst ` set ex"
    using k by simp
  then have old: "fst (ex ! k) \<in> set (tasks db)"
    by (simp add: ex_def export_tasks_set)
  have ok: "fst (import_tasks db clock ex) = None"
    using import_tasks_inv [OF inv fits, of clock] by simp
  have ts: "tasks db' = tasks db @ map row [0..<length ex]"
    unfolding db'_def row_def using inv fits by (rule import_tasks_tasks)
  have nth: "tasks db' ! (length (tasks db) + j) = row j" if "j < length ex" for j
    using that by (simp add: ts nth_append)
  have new: "tasks db' ! (length (tasks db) + k) = row k"
    using k by (rule nth)
  have tags_old: "snd (ex ! k) = select_tags db (t_id (fst (ex ! k)))"
    using assms(2) unfolding ex_def by (rule export_tasks_tags)
  have "select_tags db' (seq_tasks db + 1 + int k) = map strip (snd (ex ! k))"
    unfolding db'_def using inv fits k by (rule import_tasks_new_tags)
  also have "\<dots> = snd (ex ! k)"
    using inv by (simp add: tags_old store_inv_select_tags_stripped)
  finally have tags_new: "select_tags db' (t_id (row k)) = snd (ex ! k)"
    by (simp add: row_def imported_row_def)
  have "row k \<in> set (tasks db')"
    using k by (simp add: ts)
  then have "(row k, select_tags db' (t_id (row k))) \<in> set (get_tasks db' None None)"
    by (rule get_tasks_member)
  then have mem: "(row k, snd (ex ! k)) \<in> set (get_tasks db' None None)"
    by (simp only: tags_new)
  have fresh: "t_id (row k) \<notin> t_id ` set (tasks db)"
    using inv by (auto simp: row_def imported_row_def store_inv_def)
  have distinct: "\<forall>k' < length ex. k' \<noteq> k \<longrightarrow>
      t_id (tasks db' ! (length (tasks db) + k')) \<noteq> t_id (row k)"
    by (simp add: nth) (simp add: row_def imported_row_def)
  have fields: "title (row k) = title (fst (ex ! k))"
    "description (row k) = description (fst (ex ! k))"
    "category (row k) = category (fst (ex ! k))"
    "priority (row k) = priority (fst (ex ! k))"
    "deadline (row k) = deadline (fst (ex ! k))"
    "estimated_hours (row k) = estimated_hours (fst (ex ! k))"
    "created_at (row k) = clock k"
    "completed_at (row k) = None"
    by (simp_all add: row_def imported_row_def)
  have len: "length (tasks db') = length (tasks db) + length ex"
    by (simp add: ts)
  have tk: "take (length (tasks db)) (tasks db') = tasks db"
    by (simp add: ts)
  have first: "(\<forall>t. count_list (map fst ex) t = count_list (tasks db) t)
      \<and> length ex = length (tasks db) \<and> fst (ex ! k) \<in> set (tasks db)
      \<and> snd (ex ! k) = select_tags db (t_id (fst (ex ! k)))
      \<and> fst (import_tasks db clock ex) = None"
    using cnt lex old tags_old ok by blast
  show ?thesis
    unfolding Let_def ex_def [symmetric] db'_def [symmetric] new
    using first len tk fields tags_new mem fresh distinct by simp
qed

lemma reachable_two_deadlines: "reachable f two_deadlines"
proof -
  have "two_deadlines =
      perform f ''2024-05-01 09:05:00'' (Add_task ''reading'' [] ''home'' 3 None 1 (Some [''books'']))
        (perform f ''2024-05-01 09:00:00''
           (Add_task ''report'' [] ''work'' 3 (Some ''2024-06-01T00:00:00'') 2 (Some [''office'']))
           init_db)"
    by (simp add: two_deadlines_def)
  moreover have "reachable f
     (perform f ''2024-05-01 09:05:00'' (Add_task ''reading'' [] ''home'' 3 None 1 (Some [''books'']))
        (perform f ''2024-05-01 09:00:00''
           (Add_task ''report'' [] ''work'' 3 (Some ''2024-06-01T00:00:00'') 2 (Some [''office'']))
           init_db))"
    by (intro reachable_step reachable_init)
  ultimately show ?thesis
    by simp
qed

lemma export_two_deadlines:
  "export_tasks two_deadlines =
     [(\<lparr>t_id = 2, title = ''reading'', description = [], category = ''home'',
        priority = 3, status = ''pending'', deadline = None,
        created_at = ''2024-05-01 09:05:00'', completed_at = None,
        estimated_hours = 1, actual_hours = None\<rparr>, [''books'']),
      (\<lparr>t_id = 1, title = ''report'', description = [], category = ''work'',
        priority = 3, status = ''pending'', deadline = Some ''2024-06-01T00:00:00'',
        created_at = ''2024-05-01 09:00:00'', completed_at = None,
        estimated_hours = 2, actual_hours = None\<rparr>, [''office''])]"
  by (simp add: export_tasks_def get_tasks_two_deadlines)

theorem export_import_round_trip_witness:
  "1 < length (export_tasks two_deadlines)
   \<and> fst (import_tasks two_deadlines example_clock (export_tasks two_deadlines)) = None
   \<and> length (tasks (snd (import_tasks two_deadlines example_clock
                            (export_tasks two_deadlines)))) = 4
   \<and> map (\<lambda>t. (title t, description t, category t, priority t, deadline t, estimated_hours t,
                 created_at t))
        [tasks (snd (import_tasks two_deadlines example_clock (export_tasks two_deadlines)))
           ! 3] =
       [(''report'', [], ''work'', 3, Some ''2024-06-01T00:00:00'', 2, ''2024-07-01 12:00:01'')]
   \<and> select_tags (snd (import_tasks two_deadlines example_clock (export_tasks two_deadlines)))
        (t_id (tasks (snd (import_tasks two_deadlines example_clock
                             (export_tasks two_deadlines))) ! 3)) =
       [''office'']"
proof -
  have r: "reachable example_fromisoformat two_deadlines"
    by (rule reachable_two_deadlines)
  have k: "1 < length (export_tasks two_deadlines)"
    by (simp add: export_two_deadlines)
  have n: "length (tasks two_deadlines) = 2"
    by (simp add: two_deadlines_value)
  have e1: "export_tasks two_deadlines ! Suc 0 =
      (\<lparr>t_id = 1, title = ''report'', description = [], category = ''work'',
        priority = 3, status = ''pending'', deadline = Some ''2024-06-01T00:00:00'',
        created_at = ''2024-05-01 09:00:00'', completed_at = None,
        estimated_hours = 2, actual_hours = None\<rparr>, [''office''])"
    by (simp add: export_two_deadlines)
  have l: "length (export_tasks two_deadlines) = 2"
    by (simp add: export_two_deadlines)
  have c: "example_clock (Suc 0) = ''2024-07-01 12:00:01''"
    by (simp add: example_clock_def)
  show ?thesis
    using k export_import_round_trip [OF r k, of example_clock]
    by (simp add: Let_def n e1 l c)
qed

end
